theory Spec2Isabelle
  imports Main "HOL-Library.Word"
begin

section \<open>JavaScript strings\<close>

text \<open>
  A JavaScript string is a sequence of UTF-16 code units. \<open>output\<close> below is always the
  value of \<^verbatim>\<open>data.toString()\<close>; the decoding of the chunk's bytes is Node's and is
  not part of the model.
\<close>

type_synonym jsstring = "16 word list"

definition js :: "string \<Rightarrow> jsstring" where
  "js s = map of_char s"

text \<open>The code units that \<^verbatim>\<open>String.prototype.trim\<close> strips (WhiteSpace and LineTerminator).\<close>

definition isWhiteSpace :: "16 word \<Rightarrow> bool" where
  "isWhiteSpace c \<longleftrightarrow>
     c = 0x9 \<or> c = 0xA \<or> c = 0xB \<or> c = 0xC \<or> c = 0xD \<or> c = 0x20 \<or> c = 0xA0 \<or>
     c = 0x1680 \<or> (0x2000 \<le> c \<and> c \<le> 0x200A) \<or> c = 0x2028 \<or> c = 0x2029 \<or>
     c = 0x202F \<or> c = 0x205F \<or> c = 0x3000 \<or> c = 0xFEFF"

definition trim :: "jsstring \<Rightarrow> jsstring" where
  "trim s = rev (dropWhile isWhiteSpace (rev (dropWhile isWhiteSpace s)))"

text \<open>\<^verbatim>\<open>s.slice(-n)\<close>: the substring from index \<open>max (length s - n) 0\<close> to the end.\<close>

definition sliceLast :: "nat \<Rightarrow> jsstring \<Rightarrow> jsstring" where
  "sliceLast n s = drop (length s - n) s"

text \<open>
  The decimal digits of a number, as a template literal prints it. (From \<^verbatim>\<open>1e21\<close> on
  JavaScript prints an exponent; the restart counter, the only number printed, stays far
  below that.)
\<close>

fun decimal :: "nat \<Rightarrow> jsstring" where
  "decimal n = (if n < 10 then [of_nat (48 + n)]
                else decimal (n div 10) @ [of_nat (48 + n mod 10)])"

declare decimal.simps [simp del]

section \<open>Configuration\<close>

definition STREAM_TIMEOUT_MS :: int where
  "STREAM_TIMEOUT_MS = 300000"

definition MAX_RESTARTS :: nat where
  "MAX_RESTARTS = 3"

definition RESTART_WINDOW_MS :: int where
  "RESTART_WINDOW_MS = 3600000"

section \<open>State\<close>

text \<open>
  A \<^verbatim>\<open>ChildProcess\<close> object: \<open>cid\<close> identifies the object (one per call of
  \<^verbatim>\<open>spawn\<close>), \<open>killed\<close> is Node's flag of that name (set when a signal was
  delivered), \<open>handleOpen\<close> says that the operating-system process still exists, which
  is when \<^verbatim>\<open>kill\<close> delivers.
\<close>

record child =
  cid :: nat
  killed :: bool
  handleOpen :: bool

record supervisor_state =
  claudeProcess :: "child option"
  httpServer :: bool
  startTime :: int
  lastOutputTs :: int
  lastOutputLine :: jsstring
  streamActive :: bool
  restartCount :: nat
  restartTimestamps :: "int list"
  sessionId :: jsstring
  claudeCommand :: jsstring
  shuttingDown :: bool
  exitCode :: "int option"
  hangDetectionInterval :: "nat option"

datatype sig = SIGTERM | SIGKILL

text \<open>The one-shot timers of the program, each with the values its callback captured.\<close>

datatype timeout =
    RestartTimeout
  | SigkillTimeout
  | ForceKillTimeout nat
  | ShutdownTimeout int jsstring

text \<open>The cleanup promises of \<^verbatim>\<open>gracefulShutdown\<close>.\<close>

datatype task = HttpClose | ChildTerminate nat

text \<open>
  The supervisor state together with what the runtime holds for the program: the active
  interval timers and the pending one-shot timers, the unsettled cleanup promises and the
  arguments captured by the callback waiting for them, the signals delivered to children,
  whether \<^verbatim>\<open>initializeSupervisor\<close> is suspended at its \<^verbatim>\<open>await\<close>, and the exit
  status of the process once \<^verbatim>\<open>process.exit\<close> has run (with the reason that
  \<^verbatim>\<open>finalExit\<close> logged, when the exit came from there).
\<close>

record world =
  supervisorState :: supervisor_state
  intervals :: "nat list"
  nextTimer :: nat
  nextCid :: nat
  timeouts :: "timeout list"
  cleanupTasks :: "task list"
  onSettled :: "(int \<times> jsstring) option"
  signals :: "(nat \<times> sig) list"
  awaitingListen :: bool
  exited :: "int option"
  exitReason :: "jsstring option"

text \<open>
  What a reaction reads from outside: \<^verbatim>\<open>Date.now()\<close> (one instant per reaction), and
  whether the operating system can start the child if the reaction spawns one.
\<close>

record env =
  dateNow :: int
  spawnSucceeds :: bool

section \<open>Runtime primitives\<close>

definition clearInterval :: "nat option \<Rightarrow> world \<Rightarrow> world" where
  "clearInterval h w =
     (case h of None \<Rightarrow> w | Some t \<Rightarrow> w\<lparr>intervals := removeAll t (intervals w)\<rparr>)"

definition setTimeout :: "timeout \<Rightarrow> world \<Rightarrow> world" where
  "setTimeout t w = w\<lparr>timeouts := timeouts w @ [t]\<rparr>"

definition clearTimeout :: "timeout \<Rightarrow> world \<Rightarrow> world" where
  "clearTimeout t w = w\<lparr>timeouts := removeAll t (timeouts w)\<rparr>"

definition resolve :: "task \<Rightarrow> world \<Rightarrow> world" where
  "resolve t w = w\<lparr>cleanupTasks := removeAll t (cleanupTasks w)\<rparr>"

definition processExit :: "int \<Rightarrow> world \<Rightarrow> world" where
  "processExit c w = w\<lparr>exited := Some c\<rparr>"

text \<open>
  \<^verbatim>\<open>supervisorState.claudeProcess.kill(sig)\<close>: the signal is delivered and \<open>killed\<close>
  is set when the process still exists; otherwise nothing happens.
\<close>

definition kill :: "sig \<Rightarrow> world \<Rightarrow> world" where
  "kill s w =
     (case claudeProcess (supervisorState w) of
        None \<Rightarrow> w
      | Some p \<Rightarrow>
          if handleOpen p
          then w\<lparr>supervisorState := (supervisorState w)\<lparr>claudeProcess := Some (p\<lparr>killed := True\<rparr>)\<rparr>,
                 signals := signals w @ [(cid p, s)]\<rparr>
          else w)"

section \<open>Shutdown\<close>

definition finalExit :: "int \<Rightarrow> jsstring \<Rightarrow> world \<Rightarrow> world" where
  "finalExit c r w = processExit c (w\<lparr>exitReason := Some r\<rparr>)"

text \<open>
  \<^verbatim>\<open>new Promise\<close> for the child: arm the force-kill timer, listen for the child's
  exit, send SIGTERM.
\<close>

definition terminateChild :: "world \<Rightarrow> world" where
  "terminateChild w =
     (case claudeProcess (supervisorState w) of
        None \<Rightarrow> w
      | Some p \<Rightarrow>
          if killed p then w
          else kill SIGTERM
                 ((setTimeout (ForceKillTimeout (cid p)) w)
                    \<lparr>cleanupTasks := cleanupTasks w @ [ChildTerminate (cid p)]\<rparr>))"

definition gracefulShutdown :: "int \<Rightarrow> jsstring \<Rightarrow> world \<Rightarrow> world" where
  "gracefulShutdown c r w =
     (if shuttingDown (supervisorState w) then w
      else
        let w1 = w\<lparr>supervisorState := (supervisorState w)\<lparr>shuttingDown := True, exitCode := Some c\<rparr>\<rparr>;
            w2 = clearInterval (hangDetectionInterval (supervisorState w1)) w1;
            w3 = w2\<lparr>cleanupTasks := (if httpServer (supervisorState w2) then [HttpClose] else [])\<rparr>;
            w4 = terminateChild w3;
            w5 = w4\<lparr>onSettled := Some (c, r)\<rparr>
        in setTimeout (ShutdownTimeout c r) w5)"

text \<open>The callback of \<^verbatim>\<open>Promise.allSettled(cleanupTasks).then\<close>, run once every task has settled.\<close>

definition settle :: "world \<Rightarrow> world" where
  "settle w =
     (case onSettled w of
        None \<Rightarrow> w
      | Some (c, r) \<Rightarrow>
          if cleanupTasks w = [] \<and> exited w = None
          then finalExit c r (w\<lparr>onSettled := None\<rparr>)
          else w)"

definition shutdownTimeout :: "int \<Rightarrow> jsstring \<Rightarrow> world \<Rightarrow> world" where
  "shutdownTimeout c r w = finalExit c r w"

definition uncaughtException :: "jsstring \<Rightarrow> world \<Rightarrow> world" where
  "uncaughtException msg w = gracefulShutdown 1 (js ''Uncaught exception: '' @ msg) w"

definition unhandledRejection :: "jsstring \<Rightarrow> world \<Rightarrow> world" where
  "unhandledRejection msg w = gracefulShutdown 1 (js ''Unhandled rejection: '' @ msg) w"

text \<open>
  The force-kill timer of \<^verbatim>\<open>gracefulShutdown\<close>. Reading \<^verbatim>\<open>.killed\<close> of a null
  handle throws, which reaches the uncaught-exception handler.
\<close>

definition forceKillTimeout :: "nat \<Rightarrow> world \<Rightarrow> world" where
  "forceKillTimeout c w =
     (case claudeProcess (supervisorState w) of
        None \<Rightarrow> uncaughtException (js ''Cannot read properties of null (reading 'killed')'') w
      | Some p \<Rightarrow>
          resolve (ChildTerminate c) (if \<not> killed p then kill SIGKILL w else w))"

section \<open>Process management\<close>

definition spawnClaudeProcess :: "env \<Rightarrow> world \<Rightarrow> world" where
  "spawnClaudeProcess e w =
     (if shuttingDown (supervisorState w) then w
      else w\<lparr>supervisorState := (supervisorState w)
               \<lparr>claudeProcess := Some \<lparr>cid = nextCid w, killed = False, handleOpen = spawnSucceeds e\<rparr>,
                lastOutputTs := dateNow e,
                streamActive := True\<rparr>,
             nextCid := Suc (nextCid w)\<rparr>)"

definition onStdoutData :: "env \<Rightarrow> jsstring \<Rightarrow> world \<Rightarrow> world" where
  "onStdoutData e output w =
     w\<lparr>supervisorState := (supervisorState w)
         \<lparr>lastOutputTs := dateNow e,
          lastOutputLine := sliceLast 100 (trim output),
          streamActive := True\<rparr>\<rparr>"

definition onStderrData :: "env \<Rightarrow> jsstring \<Rightarrow> world \<Rightarrow> world" where
  "onStderrData e output w =
     w\<lparr>supervisorState := (supervisorState w)
         \<lparr>lastOutputTs := dateNow e,
          lastOutputLine := sliceLast 100 (trim output),
          streamActive := True\<rparr>\<rparr>"

section \<open>Hang detection and restart\<close>

definition startHangDetection :: "world \<Rightarrow> world" where
  "startHangDetection w =
     w\<lparr>supervisorState := (supervisorState w)\<lparr>hangDetectionInterval := Some (nextTimer w)\<rparr>,
       intervals := intervals w @ [nextTimer w],
       nextTimer := Suc (nextTimer w)\<rparr>"

definition sigkillTimeout :: "world \<Rightarrow> world" where
  "sigkillTimeout w =
     (case claudeProcess (supervisorState w) of
        None \<Rightarrow> w
      | Some p \<Rightarrow> if \<not> killed p then kill SIGKILL w else w)"

definition killHangingProcess :: "world \<Rightarrow> world" where
  "killHangingProcess w =
     (case claudeProcess (supervisorState w) of
        None \<Rightarrow> w
      | Some p \<Rightarrow> if killed p then w else setTimeout SigkillTimeout (kill SIGTERM w))"

text \<open>The callback of the interval timer; every instance of the timer runs the same body.\<close>

definition hangTick :: "env \<Rightarrow> world \<Rightarrow> world" where
  "hangTick e w =
     (if shuttingDown (supervisorState w)
      then clearInterval (hangDetectionInterval (supervisorState w)) w
      else case claudeProcess (supervisorState w) of
             None \<Rightarrow> w
           | Some p \<Rightarrow>
               if killed p then w
               else if dateNow e - lastOutputTs (supervisorState w) > STREAM_TIMEOUT_MS
               then let w1 = killHangingProcess w
                    in clearInterval (hangDetectionInterval (supervisorState w1)) w1
               else w)"

text \<open>The result is paired with the world after the call.\<close>

definition canAttemptRestart :: "env \<Rightarrow> world \<Rightarrow> bool \<times> world" where
  "canAttemptRestart e w =
     (if restartCount (supervisorState w) \<ge> MAX_RESTARTS then (False, w)
      else
        let recentRestarts =
              filter (\<lambda>timestamp. dateNow e - timestamp < RESTART_WINDOW_MS)
                (restartTimestamps (supervisorState w))
        in if length recentRestarts \<ge> MAX_RESTARTS then (False, w) else (True, w))"

definition scheduleRestart :: "world \<Rightarrow> world" where
  "scheduleRestart w = setTimeout RestartTimeout w"

text \<open>The callback that \<^verbatim>\<open>scheduleRestart\<close> queues.\<close>

definition restartTimeout :: "env \<Rightarrow> world \<Rightarrow> world" where
  "restartTimeout e w =
     (if shuttingDown (supervisorState w) then w
      else
        let w1 = w\<lparr>supervisorState := (supervisorState w)
                     \<lparr>restartCount := restartCount (supervisorState w) + 1,
                      restartTimestamps := restartTimestamps (supervisorState w) @ [dateNow e]\<rparr>\<rparr>
        in startHangDetection (spawnClaudeProcess e w1))"

definition handleClaudeFailure :: "env \<Rightarrow> world \<Rightarrow> world" where
  "handleClaudeFailure e w =
     (if shuttingDown (supervisorState w) then w
      else case canAttemptRestart e w of
             (True, w1) \<Rightarrow> scheduleRestart w1
           | (False, w1) \<Rightarrow>
               gracefulShutdown 1
                 (js ''Claude failed after '' @ decimal (restartCount (supervisorState w1)) @ js '' restarts'')
                 w1)"

text \<open>The \<^verbatim>\<open>exit\<close> listener that \<^verbatim>\<open>setupProcessHandlers\<close> registers.\<close>

definition onChildExit :: "env \<Rightarrow> int option \<Rightarrow> world \<Rightarrow> world" where
  "onChildExit e code w =
     (let w1 = w\<lparr>supervisorState := (supervisorState w)\<lparr>streamActive := False\<rparr>\<rparr>
      in if shuttingDown (supervisorState w1) then w1
         else if code = Some 0 then gracefulShutdown 0 (js ''Claude completed successfully'') w1
         else handleClaudeFailure e w1)"

section \<open>Initialization\<close>

text \<open>
  The initial state, from \<^verbatim>\<open>process.env.SESSION_ID\<close> and \<^verbatim>\<open>process.argv[2]\<close>
  (each absent or a string) and the clock.
\<close>

definition initialState :: "jsstring option \<Rightarrow> jsstring option \<Rightarrow> int \<Rightarrow> supervisor_state" where
  "initialState SESSION_ID argv2 t =
     \<lparr>claudeProcess = None, httpServer = False, startTime = t,
      lastOutputTs = t, lastOutputLine = [], streamActive = False,
      restartCount = 0, restartTimestamps = [],
      sessionId = (case SESSION_ID of None \<Rightarrow> js ''unknown''
                   | Some s \<Rightarrow> if s = [] then js ''unknown'' else s),
      claudeCommand = (case argv2 of None \<Rightarrow> [] | Some s \<Rightarrow> s),
      shuttingDown = False, exitCode = None, hangDetectionInterval = None\<rparr>"

definition initialWorld :: "jsstring option \<Rightarrow> jsstring option \<Rightarrow> int \<Rightarrow> world" where
  "initialWorld SESSION_ID argv2 t =
     \<lparr>supervisorState = initialState SESSION_ID argv2 t,
      intervals = [], nextTimer = 0, nextCid = 0, timeouts = [], cleanupTasks = [],
      onSettled = None, signals = [], awaitingListen = False, exited = None, exitReason = None\<rparr>"

text \<open>\<^verbatim>\<open>initializeSupervisor\<close> up to its \<^verbatim>\<open>await startHealthServer()\<close>.\<close>

definition initializeSupervisor :: "world \<Rightarrow> world" where
  "initializeSupervisor w =
     (if sessionId (supervisorState w) = [] \<or> sessionId (supervisorState w) = js ''unknown''
      then processExit 1 w
      else if claudeCommand (supervisorState w) = [] then processExit 1 w
      else w\<lparr>supervisorState := (supervisorState w)\<lparr>httpServer := True\<rparr>, awaitingListen := True\<rparr>)"

text \<open>The rest of \<^verbatim>\<open>initializeSupervisor\<close>, once the server listens.\<close>

definition onListening :: "env \<Rightarrow> world \<Rightarrow> world" where
  "onListening e w =
     (if awaitingListen w
      then spawnClaudeProcess e (startHangDetection (w\<lparr>awaitingListen := False\<rparr>))
      else w)"

text \<open>
  The server's \<^verbatim>\<open>error\<close> event: it rejects the promise of \<^verbatim>\<open>startHealthServer\<close>,
  and the \<^verbatim>\<open>catch\<close> of \<^verbatim>\<open>initializeSupervisor\<close> exits; on a promise already
  settled it does nothing.
\<close>

definition onServerError :: "world \<Rightarrow> world" where
  "onServerError w = (if awaitingListen w then processExit 1 w else w)"

definition boot :: "jsstring option \<Rightarrow> jsstring option \<Rightarrow> int \<Rightarrow> world" where
  "boot SESSION_ID argv2 t = initializeSupervisor (initialWorld SESSION_ID argv2 t)"

section \<open>Reactions\<close>

datatype event =
    ServerListening
  | ServerError
  | ServerClosed
  | StdoutData jsstring
  | StderrData jsstring
  | ChildExit nat "int option"
  | ChildError nat
  | HangTick nat
  | TimeoutFires timeout
  | SigtermReceived
  | SigintReceived
  | UncaughtException jsstring
  | UnhandledRejection jsstring

text \<open>Node closes the handle of a child before it emits the child's \<^verbatim>\<open>exit\<close>.\<close>

definition closeHandle :: "nat \<Rightarrow> world \<Rightarrow> world" where
  "closeHandle c w =
     (case claudeProcess (supervisorState w) of
        None \<Rightarrow> w
      | Some p \<Rightarrow>
          if cid p = c
          then w\<lparr>supervisorState := (supervisorState w)\<lparr>claudeProcess := Some (p\<lparr>handleOpen := False\<rparr>)\<rparr>\<rparr>
          else w)"

text \<open>
  The listeners of a child's \<^verbatim>\<open>exit\<close>, in the order of their registration: the one of
  \<^verbatim>\<open>setupProcessHandlers\<close>, then the one of \<^verbatim>\<open>gracefulShutdown\<close> when it was
  registered on this child before the event.
\<close>

definition childExit :: "env \<Rightarrow> nat \<Rightarrow> int option \<Rightarrow> world \<Rightarrow> world" where
  "childExit e c code w =
     (let w1 = closeHandle c w;
          listening = (ChildTerminate c \<in> set (cleanupTasks w1));
          w2 = onChildExit e code w1
      in if listening then resolve (ChildTerminate c) (clearTimeout (ForceKillTimeout c) w2) else w2)"

definition fire :: "env \<Rightarrow> timeout \<Rightarrow> world \<Rightarrow> world" where
  "fire e t w =
     (case t of
        RestartTimeout \<Rightarrow> restartTimeout e w
      | SigkillTimeout \<Rightarrow> sigkillTimeout w
      | ForceKillTimeout c \<Rightarrow> forceKillTimeout c w
      | ShutdownTimeout c r \<Rightarrow> shutdownTimeout c r w)"

text \<open>The handler of each event. A timer that is not pending does not fire.\<close>

definition react :: "event \<Rightarrow> env \<Rightarrow> world \<Rightarrow> world" where
  "react ev e w =
     (case ev of
        ServerListening \<Rightarrow> onListening e w
      | ServerError \<Rightarrow> onServerError w
      | ServerClosed \<Rightarrow> resolve HttpClose w
      | StdoutData output \<Rightarrow> onStdoutData e output w
      | StderrData output \<Rightarrow> onStderrData e output w
      | ChildExit c code \<Rightarrow> childExit e c code w
      | ChildError c \<Rightarrow> handleClaudeFailure e w
      | HangTick h \<Rightarrow> if h \<in> set (intervals w) then hangTick e w else w
      | TimeoutFires t \<Rightarrow>
          if t \<in> set (timeouts w) then fire e t (w\<lparr>timeouts := remove1 t (timeouts w)\<rparr>) else w
      | SigtermReceived \<Rightarrow> gracefulShutdown 0 (js ''SIGTERM received'') w
      | SigintReceived \<Rightarrow> gracefulShutdown 0 (js ''SIGINT received'') w
      | UncaughtException msg \<Rightarrow> uncaughtException msg w
      | UnhandledRejection msg \<Rightarrow> unhandledRejection msg w)"

text \<open>
  One reaction: nothing runs once the process has exited; otherwise the handler runs and
  then the promise callbacks that became ready.
\<close>

definition step :: "event \<Rightarrow> env \<Rightarrow> world \<Rightarrow> world" where
  "step ev e w = (if exited w \<noteq> None then w else settle (react ev e w))"

fun run :: "(event \<times> env) list \<Rightarrow> world \<Rightarrow> world" where
  "run [] w = w"
| "run ((ev, e) # evs) w = run evs (step ev e w)"

inductive reachable :: "world \<Rightarrow> bool" where
  reachable_boot: "reachable (boot SESSION_ID argv2 t)"
| reachable_step: "reachable w \<Longrightarrow> reachable (step ev e w)"

section \<open>Properties of worlds\<close>

text \<open>The restart counter and the restart log of a world.\<close>

definition counts :: "world \<Rightarrow> nat \<times> int list" where
  "counts w = (restartCount (supervisorState w), restartTimestamps (supervisorState w))"

text \<open>The counter equals the length of the log.\<close>

definition counted :: "world \<Rightarrow> bool" where
  "counted w \<longleftrightarrow> fst (counts w) = length (snd (counts w))"

text \<open>The part of a world that decides how the process exits.\<close>

definition view ::
  "world \<Rightarrow> bool \<times> int option \<times> (int \<times> jsstring) option \<times> timeout list \<times> int option \<times> jsstring option" where
  "view w = (shuttingDown (supervisorState w), exitCode (supervisorState w), onSettled w,
             timeouts w, exited w, exitReason w)"

text \<open>
  Before a shutdown request no final exit is queued and no exit code is stored; every queued
  final exit carries the stored exit code; an exit through \<^verbatim>\<open>finalExit\<close> has the stored
  code, and an exit that did not go through it has code 1.
\<close>

definition coherent :: "world \<Rightarrow> bool" where
  "coherent w \<longleftrightarrow>
     (\<not> shuttingDown (supervisorState w) \<longrightarrow>
        onSettled w = None \<and> exitCode (supervisorState w) = None \<and> exitReason w = None \<and>
        (\<forall>t \<in> set (timeouts w). t = RestartTimeout \<or> t = SigkillTimeout)) \<and>
     (\<forall>c r. onSettled w = Some (c, r) \<longrightarrow> exitCode (supervisorState w) = Some c) \<and>
     (\<forall>c r. ShutdownTimeout c r \<in> set (timeouts w) \<longrightarrow> exitCode (supervisorState w) = Some c) \<and>
     (exitReason w \<noteq> None \<longrightarrow>
        (\<exists>c. exited w = Some c \<and> exitCode (supervisorState w) = Some c)) \<and>
     (exited w \<noteq> None \<and> exitReason w = None \<longrightarrow> exited w = Some 1)"

text \<open>
  After a shutdown request with code \<open>c\<close> and reason \<open>r\<close>: the flag is set, \<open>c\<close> is
  stored, every queued final exit carries \<open>c\<close> and \<open>r\<close>, and the process has either not
  exited, or exited through \<^verbatim>\<open>finalExit\<close> with \<open>c\<close> and \<open>r\<close>, or exited with 1 from
  the failure path of the startup while that was still awaiting the server.
\<close>

definition agree :: "int \<Rightarrow> jsstring \<Rightarrow> world \<Rightarrow> bool" where
  "agree c r w \<longleftrightarrow>
     shuttingDown (supervisorState w) \<and>
     exitCode (supervisorState w) = Some c \<and>
     (onSettled w = None \<or> onSettled w = Some (c, r)) \<and>
     (\<forall>c' r'. ShutdownTimeout c' r' \<in> set (timeouts w) \<longrightarrow> c' = c \<and> r' = r) \<and>
     (exited w = None \<and> exitReason w = None \<or>
      exited w = Some c \<and> exitReason w = Some r \<or>
      exited w = Some 1 \<and> exitReason w = None \<and> awaitingListen w)"

text \<open>The shutdown flag, the stored exit code, the waiting callback, and the exit of the process.\<close>

definition outcome ::
  "world \<Rightarrow> bool \<times> int option \<times> (int \<times> jsstring) option \<times> int option \<times> jsstring option" where
  "outcome w = (shuttingDown (supervisorState w), exitCode (supervisorState w), onSettled w,
                exited w, exitReason w)"

text \<open>
  While shutting down, the stored child is marked killed or no longer exists, so that no
  further signal can reach it.
\<close>

definition quiet :: "world \<Rightarrow> bool" where
  "quiet w \<longleftrightarrow>
     (shuttingDown (supervisorState w) \<longrightarrow>
        (\<forall>p. claudeProcess (supervisorState w) = Some p \<longrightarrow> killed p \<or> \<not> handleOpen p))"

text \<open>The shutdown flag and the stored child.\<close>

definition childView :: "world \<Rightarrow> bool \<times> child option" where
  "childView w = (shuttingDown (supervisorState w), claudeProcess (supervisorState w))"

section \<open>Output events and scenarios\<close>

text \<open>The two output channels of the child and the handler of each.\<close>

datatype channel = Stdout | Stderr

definition onData :: "channel \<Rightarrow> env \<Rightarrow> jsstring \<Rightarrow> world \<Rightarrow> world" where
  "onData ch e output w =
     (case ch of Stdout \<Rightarrow> onStdoutData e output w | Stderr \<Rightarrow> onStderrData e output w)"

text \<open>The handlers of a sequence of output events, run in order.\<close>

fun outputs :: "(channel \<times> env \<times> jsstring) list \<Rightarrow> world \<Rightarrow> world" where
  "outputs [] w = w"
| "outputs ((ch, e, output) # evs) w = outputs evs (onData ch e output w)"

text \<open>
  Concrete runs: a supervisor started with session \<^verbatim>\<open>s1\<close> and command \<^verbatim>\<open>hi\<close> whose
  server listens and whose first child runs; the same after SIGTERM; after the child exits
  with code 0; after the child printed \<^verbatim>\<open>hello\<close>, exited with code 1 and was restarted;
  and a startup whose server fails to listen.
\<close>

definition envAt :: "int \<Rightarrow> env" where
  "envAt t = \<lparr>dateNow = t, spawnSucceeds = True\<rparr>"

definition started :: world where
  "started = step ServerListening (envAt 1000) (boot (Some (js ''s1'')) (Some (js ''hi'')) 0)"

definition stopping :: world where
  "stopping = step SigtermReceived (envAt 2000) started"

definition completed :: world where
  "completed = step (ChildExit 0 (Some 0)) (envAt 2000) started"

definition restarted :: world where
  "restarted = run [(StdoutData (js ''hello''), envAt 2000),
                    (ChildExit 0 (Some 1), envAt 3000),
                    (TimeoutFires RestartTimeout, envAt 5000)] started"

definition serverFailed :: world where
  "serverFailed = step ServerError (envAt 1) (boot (Some (js ''s1'')) (Some (js ''hi'')) 0)"

text \<open>
  The same startup, still awaiting its server; and that startup after two shutdown requests,
  with codes 0 and 1, followed by the failure of the server.
\<close>

definition booted :: world where
  "booted = boot (Some (js ''s1'')) (Some (js ''hi'')) 0"

definition raced :: world where
  "raced = step ServerError (envAt 2)
             (gracefulShutdown 1 (js ''b'') (gracefulShutdown 0 (js ''a'') booted))"

section \<open>The restart counter and the restart log\<close>

lemma counts_prims [simp]:
  "counts (clearInterval h w) = counts w"
  "counts (setTimeout t w) = counts w"
  "counts (clearTimeout t w) = counts w"
  "counts (resolve k w) = counts w"
  "counts (processExit c w) = counts w"
  "counts (kill s w) = counts w"
  "counts (finalExit c r w) = counts w"
  by (simp_all add: counts_def clearInterval_def setTimeout_def clearTimeout_def resolve_def
        processExit_def kill_def finalExit_def split: option.splits)

lemma counts_fields [simp]:
  "counts (w\<lparr>cleanupTasks := a\<rparr>) = counts w"
  "counts (w\<lparr>onSettled := b\<rparr>) = counts w"
  "counts (w\<lparr>timeouts := c\<rparr>) = counts w"
  "counts (w\<lparr>awaitingListen := d\<rparr>) = counts w"
  by (simp_all add: counts_def)

lemma counts_terminateChild [simp]: "counts (terminateChild w) = counts w"
  by (simp add: terminateChild_def split: option.splits)

lemma counts_gracefulShutdown [simp]: "counts (gracefulShutdown c r w) = counts w"
  by (simp add: gracefulShutdown_def Let_def) (simp add: counts_def)

lemma counts_settle [simp]: "counts (settle w) = counts w"
  by (simp add: settle_def split: option.splits)

lemma counts_faults [simp]:
  "counts (uncaughtException m w) = counts w"
  "counts (unhandledRejection m w) = counts w"
  by (simp_all add: uncaughtException_def unhandledRejection_def)

lemma counts_forceKillTimeout [simp]: "counts (forceKillTimeout c w) = counts w"
  by (simp add: forceKillTimeout_def split: option.splits)

lemma counts_spawnClaudeProcess [simp]: "counts (spawnClaudeProcess e w) = counts w"
  by (simp add: spawnClaudeProcess_def counts_def)

lemma counts_output [simp]:
  "counts (onStdoutData e out w) = counts w"
  "counts (onStderrData e out w) = counts w"
  by (simp_all add: onStdoutData_def onStderrData_def counts_def)

lemma counts_startHangDetection [simp]: "counts (startHangDetection w) = counts w"
  by (simp add: startHangDetection_def counts_def)

lemma counts_sigkillTimeout [simp]: "counts (sigkillTimeout w) = counts w"
  by (simp add: sigkillTimeout_def split: option.splits)

lemma counts_killHangingProcess [simp]: "counts (killHangingProcess w) = counts w"
  by (simp add: killHangingProcess_def split: option.splits)

lemma counts_hangTick [simp]: "counts (hangTick e w) = counts w"
  by (simp add: hangTick_def Let_def split: option.splits)

lemma counts_handleClaudeFailure [simp]: "counts (handleClaudeFailure e w) = counts w"
  by (simp add: handleClaudeFailure_def canAttemptRestart_def scheduleRestart_def Let_def)

lemma counts_onChildExit [simp]: "counts (onChildExit e code w) = counts w"
  by (simp add: onChildExit_def Let_def) (simp add: counts_def)

lemma counts_closeHandle [simp]: "counts (closeHandle c w) = counts w"
  by (simp add: closeHandle_def counts_def split: option.splits)

lemma counts_childExit [simp]: "counts (childExit e c code w) = counts w"
  by (simp add: childExit_def Let_def)

lemma counts_init [simp]:
  "counts (onListening e w) = counts w"
  "counts (onServerError w) = counts w"
  by (simp_all add: onListening_def onServerError_def)

lemma counted_restartTimeout: "counted w \<Longrightarrow> counted (restartTimeout e w)"
  by (simp add: restartTimeout_def counted_def Let_def) (simp add: counts_def)

lemma counted_fire: "counted w \<Longrightarrow> counted (fire e t w)"
  by (cases t) (simp_all add: fire_def counted_restartTimeout shutdownTimeout_def, simp_all add: counted_def)

lemma counted_react: "counted w \<Longrightarrow> counted (react ev e w)"
proof (cases ev)
  case (TimeoutFires t)
  assume "counted w"
  then have "counted (w\<lparr>timeouts := remove1 t (timeouts w)\<rparr>)"
    by (simp add: counted_def)
  then show ?thesis
    using \<open>counted w\<close> TimeoutFires by (simp add: react_def counted_fire)
qed (simp_all add: react_def counted_def)

lemma counted_step: "counted w \<Longrightarrow> counted (step ev e w)"
  using counted_react [of w ev e] by (simp add: step_def counted_def)

lemma counted_boot: "counted (boot s c t)"
  by (simp add: counted_def counts_def boot_def initializeSupervisor_def initialWorld_def
        initialState_def processExit_def)

section \<open>Queued exits agree with the stored exit code\<close>

lemma coherent_view: "view w' = view w \<Longrightarrow> coherent w' = coherent w"
  by (simp add: view_def coherent_def)

lemma view_frame [simp]:
  "view (kill s w) = view w"
  "view (closeHandle k w) = view w"
  "view (clearInterval h w) = view w"
  "view (resolve j w) = view w"
  "view (startHangDetection w) = view w"
  "view (spawnClaudeProcess e w) = view w"
  "view (onStdoutData e out w) = view w"
  "view (onStderrData e out w) = view w"
  by (simp_all add: view_def kill_def closeHandle_def clearInterval_def resolve_def
        startHangDetection_def spawnClaudeProcess_def onStdoutData_def onStderrData_def
        split: option.splits)

lemma coherent_frame [simp]:
  "coherent (kill s w) = coherent w"
  "coherent (closeHandle k w) = coherent w"
  "coherent (clearInterval h w) = coherent w"
  "coherent (resolve j w) = coherent w"
  "coherent (startHangDetection w) = coherent w"
  "coherent (spawnClaudeProcess e w) = coherent w"
  "coherent (onStdoutData e out w) = coherent w"
  "coherent (onStderrData e out w) = coherent w"
  by (rule coherent_view, simp)+

lemma in_set_remove1D: "x \<in> set (remove1 y xs) \<Longrightarrow> x \<in> set xs"
  by (metis notin_set_remove1)

lemma coherent_remove1: "coherent w \<Longrightarrow> coherent (w\<lparr>timeouts := remove1 t (timeouts w)\<rparr>)"
  unfolding coherent_def by (auto dest!: in_set_remove1D)

lemma coherent_clearTimeout: "coherent w \<Longrightarrow> coherent (clearTimeout t w)"
  by (auto simp: coherent_def clearTimeout_def)

lemma coherent_setTimeout:
  "coherent w \<Longrightarrow> t = RestartTimeout \<or> t = SigkillTimeout \<Longrightarrow> coherent (setTimeout t w)"
  by (auto simp: coherent_def setTimeout_def)

lemma terminateChild_view:
  "shuttingDown (supervisorState (terminateChild w)) = shuttingDown (supervisorState w)"
  "exitCode (supervisorState (terminateChild w)) = exitCode (supervisorState w)"
  "exited (terminateChild w) = exited w"
  "exitReason (terminateChild w) = exitReason w"
  "t \<in> set (timeouts (terminateChild w)) \<Longrightarrow> t \<in> set (timeouts w) \<or> (\<exists>k. t = ForceKillTimeout k)"
  by (auto simp: terminateChild_def kill_def setTimeout_def split: option.splits if_splits)

lemma gracefulShutdown_view:
  assumes "\<not> shuttingDown (supervisorState w)"
  shows "shuttingDown (supervisorState (gracefulShutdown c r w))"
    and "exitCode (supervisorState (gracefulShutdown c r w)) = Some c"
    and "onSettled (gracefulShutdown c r w) = Some (c, r)"
    and "exited (gracefulShutdown c r w) = exited w"
    and "exitReason (gracefulShutdown c r w) = exitReason w"
    and "ShutdownTimeout c r \<in> set (timeouts (gracefulShutdown c r w))"
    and "t \<in> set (timeouts (gracefulShutdown c r w)) \<Longrightarrow>
           t \<in> set (timeouts w) \<or> (\<exists>k. t = ForceKillTimeout k) \<or> t = ShutdownTimeout c r"
  using assms
  by (auto simp: gracefulShutdown_def Let_def setTimeout_def terminateChild_view clearInterval_def
        split: option.splits dest!: terminateChild_view(5))

lemma coherent_gracefulShutdown: "coherent w \<Longrightarrow> coherent (gracefulShutdown c r w)"
proof (cases "shuttingDown (supervisorState w)")
  case True
  assume "coherent w"
  with True show ?thesis by (simp add: gracefulShutdown_def)
next
  case False
  assume c: "coherent w"
  note v = gracefulShutdown_view [OF False]
  from c False have old: "\<forall>t \<in> set (timeouts w). t = RestartTimeout \<or> t = SigkillTimeout"
    and x: "exitReason w = None" by (auto simp: coherent_def)
  have "\<And>c' r'. ShutdownTimeout c' r' \<in> set (timeouts (gracefulShutdown c r w)) \<Longrightarrow> c' = c"
    using v(7) [of "ShutdownTimeout c' r'" c r for c' r'] old by fastforce
  moreover have "exited w \<noteq> None \<longrightarrow> exited w = Some 1"
    using c x by (auto simp: coherent_def)
  ultimately show ?thesis
    using v(1-5) x by (auto simp: coherent_def)
qed

lemma coherent_settle: "coherent w \<Longrightarrow> coherent (settle w)"
  by (auto simp: coherent_def settle_def finalExit_def processExit_def split: option.splits)

lemma coherent_handleClaudeFailure: "coherent w \<Longrightarrow> coherent (handleClaudeFailure e w)"
  by (simp add: handleClaudeFailure_def canAttemptRestart_def scheduleRestart_def Let_def
        coherent_gracefulShutdown coherent_setTimeout)

lemma coherent_streamActive:
  "coherent (w\<lparr>supervisorState := (supervisorState w)\<lparr>streamActive := b\<rparr>\<rparr>) = coherent w"
  by (rule coherent_view) (simp add: view_def)

lemma coherent_onChildExit:
  assumes "coherent w"
  shows "coherent (onChildExit e code w)"
proof -
  let ?w1 = "w\<lparr>supervisorState := (supervisorState w)\<lparr>streamActive := False\<rparr>\<rparr>"
  have c: "coherent ?w1" using assms by (simp add: coherent_streamActive)
  have "onChildExit e code w =
          (if shuttingDown (supervisorState w) then ?w1
           else if code = Some 0 then gracefulShutdown 0 (js ''Claude completed successfully'') ?w1
           else handleClaudeFailure e ?w1)"
    by (simp add: onChildExit_def Let_def)
  then show ?thesis
    using c coherent_gracefulShutdown [OF c] coherent_handleClaudeFailure [OF c] by simp
qed

lemma coherent_childExit:
  assumes "coherent w"
  shows "coherent (childExit e k code w)"
proof -
  have "coherent (closeHandle k w)" using assms by simp
  then have c: "coherent (onChildExit e code (closeHandle k w))" by (rule coherent_onChildExit)
  show ?thesis
    using c coherent_clearTimeout [OF c] by (simp add: childExit_def Let_def)
qed

lemma coherent_killHangingProcess: "coherent w \<Longrightarrow> coherent (killHangingProcess w)"
  by (simp add: killHangingProcess_def coherent_setTimeout split: option.splits)

lemma coherent_hangTick: "coherent w \<Longrightarrow> coherent (hangTick e w)"
  by (simp add: hangTick_def Let_def coherent_killHangingProcess split: option.splits)

lemma coherent_counts:
  "coherent (w\<lparr>supervisorState := (supervisorState w)\<lparr>restartCount := a, restartTimestamps := b\<rparr>\<rparr>)
     = coherent w"
  by (rule coherent_view) (simp add: view_def)

lemma coherent_restartTimeout:
  assumes "coherent w"
  shows "coherent (restartTimeout e w)"
proof (cases "shuttingDown (supervisorState w)")
  case True
  then show ?thesis using assms by (simp add: restartTimeout_def)
next
  case False
  let ?w1 = "w\<lparr>supervisorState := (supervisorState w)
                 \<lparr>restartCount := restartCount (supervisorState w) + 1,
                  restartTimestamps := restartTimestamps (supervisorState w) @ [dateNow e]\<rparr>\<rparr>"
  have "restartTimeout e w = startHangDetection (spawnClaudeProcess e ?w1)"
    using False unfolding restartTimeout_def Let_def by (simp only: if_False)
  moreover have "coherent ?w1" using assms by (simp only: coherent_counts)
  ultimately show ?thesis by (simp only: coherent_frame)
qed

lemma coherent_sigkillTimeout: "coherent w \<Longrightarrow> coherent (sigkillTimeout w)"
  by (simp add: sigkillTimeout_def split: option.splits)

lemma coherent_faults:
  "coherent w \<Longrightarrow> coherent (uncaughtException m w)"
  "coherent w \<Longrightarrow> coherent (unhandledRejection m w)"
  by (simp_all add: uncaughtException_def unhandledRejection_def coherent_gracefulShutdown)

lemma coherent_forceKillTimeout: "coherent w \<Longrightarrow> coherent (forceKillTimeout k w)"
  by (simp add: forceKillTimeout_def coherent_faults split: option.splits)

lemma coherent_shutdownTimeout:
  "coherent w \<Longrightarrow> exitCode (supervisorState w) = Some c \<Longrightarrow> coherent (shutdownTimeout c r w)"
  by (auto simp: coherent_def shutdownTimeout_def finalExit_def processExit_def)

lemma coherent_fire:
  assumes "coherent w" "t \<in> set (timeouts w)"
  shows "coherent (fire e t (w\<lparr>timeouts := remove1 t (timeouts w)\<rparr>))"
proof -
  let ?w = "w\<lparr>timeouts := remove1 t (timeouts w)\<rparr>"
  have a: "coherent ?w" using assms(1) by (rule coherent_remove1)
  show ?thesis
  proof (cases t)
    case (ShutdownTimeout c r)
    with assms have "exitCode (supervisorState ?w) = Some c" by (auto simp: coherent_def)
    with a ShutdownTimeout show ?thesis by (simp add: fire_def coherent_shutdownTimeout)
  next
    case RestartTimeout
    then show ?thesis using a by (simp add: fire_def coherent_restartTimeout)
  next
    case SigkillTimeout
    then show ?thesis using a by (simp add: fire_def coherent_sigkillTimeout)
  next
    case (ForceKillTimeout k)
    then show ?thesis using a by (simp add: fire_def coherent_forceKillTimeout)
  qed
qed

lemma coherent_onListening: "coherent w \<Longrightarrow> coherent (onListening e w)"
  by (simp add: onListening_def) (simp add: coherent_def)

lemma coherent_onServerError: "coherent w \<Longrightarrow> exited w = None \<Longrightarrow> coherent (onServerError w)"
  by (auto simp: coherent_def onServerError_def processExit_def)

lemma coherent_react: "coherent w \<Longrightarrow> exited w = None \<Longrightarrow> coherent (react ev e w)"
  by (cases ev)
     (simp_all add: react_def coherent_fire coherent_childExit coherent_hangTick
        coherent_handleClaudeFailure coherent_onListening coherent_onServerError
        coherent_gracefulShutdown coherent_faults)

lemma coherent_step: "coherent w \<Longrightarrow> coherent (step ev e w)"
  by (simp add: step_def coherent_react coherent_settle)

lemma coherent_boot: "coherent (boot s a t)"
  by (simp add: coherent_def boot_def initializeSupervisor_def initialWorld_def initialState_def
        processExit_def)

lemma reachable_coherent: "reachable w \<Longrightarrow> coherent w"
  by (induction rule: reachable.induct) (simp_all add: coherent_boot coherent_step)

section \<open>Queued exits agree with the first request\<close>

lemma agree_settle: "agree c r w \<Longrightarrow> agree c r (settle w)"
  by (auto simp: agree_def settle_def finalExit_def processExit_def split: option.splits)

lemma agree_kill: "agree c r w \<Longrightarrow> agree c r (kill s w)"
  by (simp add: agree_def kill_def split: option.splits)

lemma agree_remove1: "agree c r w \<Longrightarrow> agree c r (w\<lparr>timeouts := remove1 t (timeouts w)\<rparr>)"
  unfolding agree_def by (auto dest!: in_set_remove1D)

lemma agree_resolve: "agree c r w \<Longrightarrow> agree c r (resolve k w)"
  by (simp add: agree_def resolve_def)

lemma agree_clearTimeout: "agree c r w \<Longrightarrow> agree c r (clearTimeout t w)"
  by (auto simp: agree_def clearTimeout_def)

lemma agree_clearInterval: "agree c r w \<Longrightarrow> agree c r (clearInterval h w)"
  by (simp add: agree_def clearInterval_def split: option.splits)

lemma agree_closeHandle: "agree c r w \<Longrightarrow> agree c r (closeHandle k w)"
  by (simp add: agree_def closeHandle_def split: option.splits)

lemma agree_gracefulShutdown: "agree c r w \<Longrightarrow> gracefulShutdown c' r' w = w"
  by (simp add: agree_def gracefulShutdown_def)

lemma agree_forceKillTimeout: "agree c r w \<Longrightarrow> agree c r (forceKillTimeout k w)"
  by (simp add: forceKillTimeout_def uncaughtException_def agree_gracefulShutdown
        agree_resolve agree_kill split: option.splits)

lemma agree_sigkillTimeout: "agree c r w \<Longrightarrow> agree c r (sigkillTimeout w)"
  by (simp add: sigkillTimeout_def agree_kill split: option.splits)

lemma agree_restartTimeout: "agree c r w \<Longrightarrow> restartTimeout e w = w"
  by (simp add: agree_def restartTimeout_def)

lemma agree_shutdownTimeout:
  "agree c r w \<Longrightarrow> exited w = None \<Longrightarrow> agree c r (shutdownTimeout c r w)"
  by (simp add: agree_def shutdownTimeout_def finalExit_def processExit_def)

lemma agree_fire:
  assumes "agree c r w" "t \<in> set (timeouts w)" "exited w = None"
  shows "agree c r (fire e t (w\<lparr>timeouts := remove1 t (timeouts w)\<rparr>))"
proof -
  let ?w = "w\<lparr>timeouts := remove1 t (timeouts w)\<rparr>"
  have a: "agree c r ?w" using assms(1) by (rule agree_remove1)
  have x: "exited ?w = None" using assms(3) by simp
  show ?thesis
  proof (cases t)
    case RestartTimeout
    then show ?thesis using a by (simp add: fire_def agree_restartTimeout)
  next
    case SigkillTimeout
    then show ?thesis using a by (simp add: fire_def agree_sigkillTimeout)
  next
    case (ForceKillTimeout k)
    then show ?thesis using a by (simp add: fire_def agree_forceKillTimeout)
  next
    case (ShutdownTimeout c' r')
    with assms have "c' = c" "r' = r" by (auto simp: agree_def)
    with ShutdownTimeout show ?thesis using agree_shutdownTimeout [OF a x] by (simp add: fire_def)
  qed
qed

lemma agree_onChildExit: "agree c r w \<Longrightarrow> agree c r (onChildExit e code w)"
  by (simp add: agree_def onChildExit_def Let_def)

lemma agree_childExit: "agree c r w \<Longrightarrow> agree c r (childExit e k code w)"
  by (simp add: childExit_def Let_def agree_resolve agree_clearTimeout agree_onChildExit agree_closeHandle)

lemma agree_hangTick: "agree c r w \<Longrightarrow> agree c r (hangTick e w)"
  using agree_clearInterval [of c r w] by (simp add: hangTick_def agree_def)

lemma agree_handleClaudeFailure: "agree c r w \<Longrightarrow> handleClaudeFailure e w = w"
  by (simp add: agree_def handleClaudeFailure_def)

lemma agree_onListening: "agree c r w \<Longrightarrow> exited w = None \<Longrightarrow> agree c r (onListening e w)"
  by (simp add: agree_def onListening_def spawnClaudeProcess_def startHangDetection_def)

lemma agree_onServerError: "agree c r w \<Longrightarrow> exited w = None \<Longrightarrow> agree c r (onServerError w)"
  by (auto simp add: agree_def onServerError_def processExit_def)

lemma agree_output:
  "agree c r w \<Longrightarrow> agree c r (onStdoutData e out w)"
  "agree c r w \<Longrightarrow> agree c r (onStderrData e out w)"
  by (simp_all add: agree_def onStdoutData_def onStderrData_def)

lemma agree_react: "agree c r w \<Longrightarrow> exited w = None \<Longrightarrow> agree c r (react ev e w)"
  by (cases ev)
     (simp_all add: react_def agree_fire agree_childExit agree_hangTick agree_handleClaudeFailure
        agree_onListening agree_onServerError agree_output agree_resolve agree_gracefulShutdown
        uncaughtException_def unhandledRejection_def)

lemma agree_step: "agree c r w \<Longrightarrow> agree c r (step ev e w)"
  by (simp add: step_def agree_react agree_settle)

lemma agree_run: "agree c r w \<Longrightarrow> agree c r (run evs w)"
  by (induction evs arbitrary: w) (auto simp: agree_step)

lemma agree_start:
  assumes "coherent w" "\<not> shuttingDown (supervisorState w)" "exited w = None"
  shows "agree c r (gracefulShutdown c r w)"
proof -
  note v = gracefulShutdown_view [OF assms(2)]
  from assms have old: "\<forall>t \<in> set (timeouts w). t = RestartTimeout \<or> t = SigkillTimeout"
    and x: "exitReason w = None" by (auto simp: coherent_def)
  have "\<And>c' r'. ShutdownTimeout c' r' \<in> set (timeouts (gracefulShutdown c r w)) \<Longrightarrow> c' = c \<and> r' = r"
    using v(7) [of "ShutdownTimeout c' r'" c r for c' r'] old by fastforce
  then show ?thesis
    using v(1-5) x assms(3) by (auto simp: agree_def)
qed

section \<open>What each reaction does to the exit\<close>

lemma outcome_frame [simp]:
  "outcome (kill s w) = outcome w"
  "outcome (closeHandle k w) = outcome w"
  "outcome (clearInterval h w) = outcome w"
  "outcome (resolve j w) = outcome w"
  "outcome (startHangDetection w) = outcome w"
  "outcome (spawnClaudeProcess e w) = outcome w"
  "outcome (onStdoutData e out w) = outcome w"
  "outcome (onStderrData e out w) = outcome w"
  "outcome (setTimeout t w) = outcome w"
  "outcome (clearTimeout t w) = outcome w"
  "outcome (w\<lparr>timeouts := ts\<rparr>) = outcome w"
  "outcome (w\<lparr>awaitingListen := b\<rparr>) = outcome w"
  "outcome (w\<lparr>supervisorState := (supervisorState w)\<lparr>streamActive := b\<rparr>\<rparr>) = outcome w"
  by (simp_all add: outcome_def kill_def closeHandle_def clearInterval_def resolve_def
        startHangDetection_def spawnClaudeProcess_def onStdoutData_def onStderrData_def
        setTimeout_def clearTimeout_def split: option.splits)

lemma outcome_killHangingProcess [simp]: "outcome (killHangingProcess w) = outcome w"
  by (simp add: killHangingProcess_def split: option.splits)

lemma outcome_hangTick [simp]: "outcome (hangTick e w) = outcome w"
  by (simp add: hangTick_def Let_def split: option.splits)

lemma outcome_sigkillTimeout [simp]: "outcome (sigkillTimeout w) = outcome w"
  by (simp add: sigkillTimeout_def split: option.splits)

lemma outcome_restartTimeout [simp]: "outcome (restartTimeout e w) = outcome w"
proof -
  have "outcome (w\<lparr>supervisorState := (supervisorState w)\<lparr>restartCount := a, restartTimestamps := b\<rparr>\<rparr>)
          = outcome w" for a b
    by (simp add: outcome_def)
  then show ?thesis by (simp add: restartTimeout_def Let_def)
qed

lemma outcome_onListening [simp]: "outcome (onListening e w) = outcome w"
  by (simp add: onListening_def)

lemma outcome_gracefulShutdown:
  "\<not> shuttingDown (supervisorState w) \<Longrightarrow>
     outcome (gracefulShutdown c r w) = (True, Some c, Some (c, r), exited w, exitReason w)"
  by (simp add: outcome_def gracefulShutdown_view)

lemma canAttemptRestart_counts:
  "fst (canAttemptRestart e w) \<longleftrightarrow>
     fst (counts w) < MAX_RESTARTS \<and>
     length (filter (\<lambda>t. dateNow e - t < RESTART_WINDOW_MS) (snd (counts w))) < MAX_RESTARTS"
  by (simp add: canAttemptRestart_def counts_def Let_def)

lemma outcome_handleClaudeFailure:
  "\<not> shuttingDown (supervisorState w) \<Longrightarrow>
     outcome (handleClaudeFailure e w) =
       (if fst (canAttemptRestart e w) then outcome w
        else (True, Some 1, Some (1, js ''Claude failed after '' @
                decimal (restartCount (supervisorState w)) @ js '' restarts''),
              exited w, exitReason w))"
  by (simp add: handleClaudeFailure_def canAttemptRestart_def scheduleRestart_def Let_def
        outcome_gracefulShutdown)

lemma counts_streamActive [simp]:
  "counts (w\<lparr>supervisorState := (supervisorState w)\<lparr>streamActive := b\<rparr>\<rparr>) = counts w"
  by (simp add: counts_def)

lemma closeHandle_fields:
  "exited (closeHandle k w) = exited w"
  "exitReason (closeHandle k w) = exitReason w"
  "exitCode (supervisorState (closeHandle k w)) = exitCode (supervisorState w)"
  by (simp_all add: closeHandle_def split: option.splits)

lemma outcome_childExit:
  assumes "\<not> shuttingDown (supervisorState w)"
  shows "fst (snd (outcome (childExit e k code w))) =
           (if code = Some 0 then Some 0
            else if fst (canAttemptRestart e w) then exitCode (supervisorState w) else Some 1)"
    and "snd (snd (snd (outcome (childExit e k code w)))) = (exited w, exitReason w)"
proof -
  let ?w0 = "closeHandle k w"
  let ?w1 = "?w0\<lparr>supervisorState := (supervisorState ?w0)\<lparr>streamActive := False\<rparr>\<rparr>"
  have o1: "outcome ?w1 = outcome w" by simp
  then have sd: "\<not> shuttingDown (supervisorState ?w1)"
    using assms by (simp add: outcome_def)
  have sd0: "\<not> shuttingDown (supervisorState ?w0)"
    using assms outcome_frame(2) [of k w] by (simp add: outcome_def)
  have can: "fst (canAttemptRestart e ?w1) = fst (canAttemptRestart e w)"
    by (simp add: canAttemptRestart_counts)
  have rc: "restartCount (supervisorState ?w1) = restartCount (supervisorState w)"
    using counts_closeHandle [of k w] by (simp add: counts_def)
  have body: "onChildExit e code ?w0 =
          (if code = Some 0 then gracefulShutdown 0 (js ''Claude completed successfully'') ?w1
           else handleClaudeFailure e ?w1)"
    using sd0 by (simp add: onChildExit_def Let_def)
  have "outcome (childExit e k code w) = outcome (onChildExit e code ?w0)"
    by (simp add: childExit_def Let_def)
  then have *: "outcome (childExit e k code w) =
          (if code = Some 0 then outcome (gracefulShutdown 0 (js ''Claude completed successfully'') ?w1)
           else outcome (handleClaudeFailure e ?w1))"
    by (simp only: body if_distrib [of outcome])
  show "fst (snd (outcome (childExit e k code w))) =
           (if code = Some 0 then Some 0
            else if fst (canAttemptRestart e w) then exitCode (supervisorState w) else Some 1)"
    using o1 unfolding * by (simp add: outcome_gracefulShutdown [OF sd] outcome_handleClaudeFailure [OF sd] can)
      (simp add: outcome_def closeHandle_fields)
  show "snd (snd (snd (outcome (childExit e k code w)))) = (exited w, exitReason w)"
    using o1 unfolding * by (simp add: outcome_gracefulShutdown [OF sd] outcome_handleClaudeFailure [OF sd] can)
      (simp add: outcome_def closeHandle_fields)
qed

lemma settle_outcome:
  "exitCode (supervisorState (settle w)) = exitCode (supervisorState w)"
  "exited (settle w) \<noteq> None \<and> exitReason (settle w) = None \<longleftrightarrow> exited w \<noteq> None \<and> exitReason w = None"
  by (auto simp: settle_def finalExit_def processExit_def split: option.splits)

lemma outcomeD:
  assumes "outcome v = outcome w"
  shows "exitCode (supervisorState v) = exitCode (supervisorState w)"
    and "exited v = exited w" and "exitReason v = exitReason w"
  using assms by (simp_all add: outcome_def)

lemma outcome_fire:
  assumes "t = RestartTimeout \<or> t = SigkillTimeout"
  shows "outcome (fire e t (w\<lparr>timeouts := ts\<rparr>)) = outcome w"
  using assms by (auto simp: fire_def)

lemma react_outcome:
  assumes "coherent w" "\<not> shuttingDown (supervisorState w)" "exited w = None"
  shows "exitCode (supervisorState (react ev e w)) =
           (if (\<exists>k. ev = ChildExit k (Some 0)) \<or> ev = SigtermReceived \<or> ev = SigintReceived
            then Some 0
            else if ((\<exists>k code. ev = ChildExit k code) \<or> (\<exists>k. ev = ChildError k)) \<and>
                      \<not> fst (canAttemptRestart e w) \<or>
                    (\<exists>m. ev = UncaughtException m) \<or> (\<exists>m. ev = UnhandledRejection m)
            then Some 1 else None) \<and>
         exitReason (react ev e w) = None \<and>
         exited (react ev e w) = (if ev = ServerError \<and> awaitingListen w then Some 1 else None)"
proof -
  from assms have i: "exitCode (supervisorState w) = None" "exitReason w = None"
    and ts: "\<forall>t \<in> set (timeouts w). t = RestartTimeout \<or> t = SigkillTimeout"
    by (auto simp: coherent_def)
  note gs = outcome_gracefulShutdown [OF assms(2), unfolded outcome_def, simplified]
  note hf = outcome_handleClaudeFailure [OF assms(2), unfolded outcome_def, simplified]
  show ?thesis
  proof (cases ev)
    case ServerListening
    then show ?thesis using i assms(3) outcomeD [OF outcome_onListening, of e w]
      by (simp add: react_def)
  next
    case ServerError
    then show ?thesis using i assms(3) by (simp add: react_def onServerError_def processExit_def)
  next
    case ServerClosed
    then show ?thesis using i assms(3) outcomeD [OF outcome_frame(4), of HttpClose w]
      by (simp add: react_def)
  next
    case (StdoutData x)
    then show ?thesis using i assms(3) outcomeD [OF outcome_frame(7), of e x w]
      by (simp add: react_def)
  next
    case (StderrData x)
    then show ?thesis using i assms(3) outcomeD [OF outcome_frame(8), of e x w]
      by (simp add: react_def)
  next
    case (ChildExit k code)
    then show ?thesis
      using i assms(3) outcome_childExit [OF assms(2), of e k code]
      by (auto simp: react_def outcome_def)
  next
    case (ChildError k)
    then show ?thesis using i assms(3) hf [of e] by (auto simp: react_def)
  next
    case (HangTick h)
    then show ?thesis using i assms(3) outcomeD [OF outcome_hangTick, of e w]
      by (simp add: react_def)
  next
    case (TimeoutFires t)
    show ?thesis
    proof (cases "t \<in> set (timeouts w)")
      case True
      with ts have "t = RestartTimeout \<or> t = SigkillTimeout" by blast
      from outcomeD [OF outcome_fire [OF this]] show ?thesis
        using TimeoutFires True i assms(3) by (simp add: react_def)
    next
      case False
      then show ?thesis using TimeoutFires i assms(3) by (simp add: react_def)
    qed
  next
    case SigtermReceived
    then show ?thesis using i assms(3) gs by (simp add: react_def)
  next
    case SigintReceived
    then show ?thesis using i assms(3) gs by (simp add: react_def)
  next
    case (UncaughtException m)
    then show ?thesis using i assms(3) gs by (simp add: react_def uncaughtException_def)
  next
    case (UnhandledRejection m)
    then show ?thesis using i assms(3) gs by (simp add: react_def unhandledRejection_def)
  qed
qed

section \<open>The startup stops awaiting once and for all\<close>

lemma awaiting_frame [simp]:
  "awaitingListen (kill s w) = awaitingListen w"
  "awaitingListen (closeHandle k w) = awaitingListen w"
  "awaitingListen (clearInterval h w) = awaitingListen w"
  "awaitingListen (resolve j w) = awaitingListen w"
  "awaitingListen (startHangDetection w) = awaitingListen w"
  "awaitingListen (spawnClaudeProcess e w) = awaitingListen w"
  "awaitingListen (onStdoutData e out w) = awaitingListen w"
  "awaitingListen (onStderrData e out w) = awaitingListen w"
  "awaitingListen (setTimeout t w) = awaitingListen w"
  "awaitingListen (clearTimeout t w) = awaitingListen w"
  "awaitingListen (processExit c w) = awaitingListen w"
  "awaitingListen (finalExit c r w) = awaitingListen w"
  by (simp_all add: kill_def closeHandle_def clearInterval_def resolve_def
        startHangDetection_def spawnClaudeProcess_def onStdoutData_def onStderrData_def
        setTimeout_def clearTimeout_def processExit_def finalExit_def split: option.splits)

lemma awaiting_terminateChild [simp]: "awaitingListen (terminateChild w) = awaitingListen w"
  by (simp add: terminateChild_def split: option.splits)

lemma awaiting_gracefulShutdown [simp]:
  "awaitingListen (gracefulShutdown c r w) = awaitingListen w"
  by (simp add: gracefulShutdown_def Let_def)

lemma awaiting_settle [simp]: "awaitingListen (settle w) = awaitingListen w"
  by (simp add: settle_def split: option.splits)

lemma awaiting_timers [simp]:
  "awaitingListen (shutdownTimeout c r w) = awaitingListen w"
  "awaitingListen (uncaughtException m w) = awaitingListen w"
  "awaitingListen (unhandledRejection m w) = awaitingListen w"
  "awaitingListen (sigkillTimeout w) = awaitingListen w"
  "awaitingListen (killHangingProcess w) = awaitingListen w"
  "awaitingListen (scheduleRestart w) = awaitingListen w"
  "awaitingListen (onServerError w) = awaitingListen w"
  by (simp_all add: shutdownTimeout_def uncaughtException_def unhandledRejection_def
        sigkillTimeout_def killHangingProcess_def scheduleRestart_def onServerError_def
        split: option.splits)

lemma awaiting_forceKillTimeout [simp]:
  "awaitingListen (forceKillTimeout k w) = awaitingListen w"
  by (simp add: forceKillTimeout_def split: option.splits)

lemma awaiting_hangTick [simp]: "awaitingListen (hangTick e w) = awaitingListen w"
  by (simp add: hangTick_def Let_def split: option.splits)

lemma awaiting_restartTimeout [simp]: "awaitingListen (restartTimeout e w) = awaitingListen w"
  by (simp add: restartTimeout_def Let_def)

lemma awaiting_handleClaudeFailure [simp]:
  "awaitingListen (handleClaudeFailure e w) = awaitingListen w"
  by (simp add: handleClaudeFailure_def canAttemptRestart_def Let_def)

lemma awaiting_onChildExit [simp]: "awaitingListen (onChildExit e code w) = awaitingListen w"
  by (simp add: onChildExit_def Let_def)

lemma awaiting_childExit [simp]: "awaitingListen (childExit e k code w) = awaitingListen w"
  by (simp add: childExit_def Let_def)

lemma awaiting_fire [simp]: "awaitingListen (fire e t w) = awaitingListen w"
  by (cases t) (simp_all add: fire_def)

lemma awaiting_onListening: "awaitingListen (onListening e w) \<Longrightarrow> awaitingListen w"
  by (simp add: onListening_def split: if_splits)

lemma awaiting_react: "awaitingListen (react ev e w) \<Longrightarrow> awaitingListen w"
  by (cases ev) (auto simp: react_def dest: awaiting_onListening split: if_splits)

lemma awaiting_step: "awaitingListen (step ev e w) \<Longrightarrow> awaitingListen w"
  by (auto simp: step_def dest: awaiting_react split: if_splits)

lemma awaiting_run: "awaitingListen (run evs w) \<Longrightarrow> awaitingListen w"
proof (induction evs arbitrary: w)
  case Nil
  then show ?case by simp
next
  case (Cons x evs)
  obtain ev e where x: "x = (ev, e)" by (cases x)
  from Cons.prems have "awaitingListen (run evs (step ev e w))" by (simp add: x)
  then have "awaitingListen (step ev e w)" by (rule Cons.IH)
  then show ?case by (rule awaiting_step)
qed

section \<open>A shutdown leaves no child that a signal can reach\<close>

lemma quiet_view: "childView v = childView w \<Longrightarrow> quiet v = quiet w"
  by (simp add: quiet_def childView_def)

lemma childView_frame [simp]:
  "childView (clearInterval h w) = childView w"
  "childView (resolve j w) = childView w"
  "childView (startHangDetection w) = childView w"
  "childView (onStdoutData e out w) = childView w"
  "childView (onStderrData e out w) = childView w"
  "childView (setTimeout t w) = childView w"
  "childView (clearTimeout t w) = childView w"
  "childView (processExit c w) = childView w"
  "childView (finalExit c r w) = childView w"
  "childView (scheduleRestart w) = childView w"
  "childView (onServerError w) = childView w"
  "childView (shutdownTimeout c r w) = childView w"
  "childView (w\<lparr>timeouts := ts\<rparr>) = childView w"
  "childView (w\<lparr>awaitingListen := b\<rparr>) = childView w"
  "childView (w\<lparr>cleanupTasks := tasks\<rparr>) = childView w"
  "childView (w\<lparr>onSettled := x\<rparr>) = childView w"
  "childView (w\<lparr>supervisorState := (supervisorState w)\<lparr>streamActive := b\<rparr>\<rparr>) = childView w"
  by (simp_all add: childView_def clearInterval_def resolve_def startHangDetection_def
        onStdoutData_def onStderrData_def setTimeout_def clearTimeout_def processExit_def
        finalExit_def scheduleRestart_def onServerError_def shutdownTimeout_def
        split: option.splits)

lemma quiet_frame [simp]:
  "quiet (clearInterval h w) = quiet w"
  "quiet (resolve j w) = quiet w"
  "quiet (startHangDetection w) = quiet w"
  "quiet (onStdoutData e out w) = quiet w"
  "quiet (onStderrData e out w) = quiet w"
  "quiet (setTimeout t w) = quiet w"
  "quiet (clearTimeout t w) = quiet w"
  "quiet (processExit c w) = quiet w"
  "quiet (finalExit c r w) = quiet w"
  "quiet (scheduleRestart w) = quiet w"
  "quiet (onServerError w) = quiet w"
  "quiet (shutdownTimeout c r w) = quiet w"
  "quiet (w\<lparr>timeouts := ts\<rparr>) = quiet w"
  "quiet (w\<lparr>awaitingListen := b\<rparr>) = quiet w"
  "quiet (w\<lparr>cleanupTasks := tasks\<rparr>) = quiet w"
  "quiet (w\<lparr>onSettled := x\<rparr>) = quiet w"
  "quiet (w\<lparr>supervisorState := (supervisorState w)\<lparr>streamActive := b\<rparr>\<rparr>) = quiet w"
  by (rule quiet_view, simp)+

lemma quiet_settle [simp]: "quiet (settle w) = quiet w"
  by (simp add: settle_def split: option.splits)

lemma quiet_kill: "quiet w \<Longrightarrow> quiet (kill s w)"
  by (auto simp: quiet_def kill_def split: option.splits)

lemma quiet_closeHandle: "quiet w \<Longrightarrow> quiet (closeHandle k w)"
  by (auto simp: quiet_def closeHandle_def split: option.splits)

lemma quiet_spawnClaudeProcess: "quiet w \<Longrightarrow> quiet (spawnClaudeProcess e w)"
  by (auto simp: quiet_def spawnClaudeProcess_def)

lemma terminateChild_child:
  "claudeProcess (supervisorState (terminateChild w)) = Some p \<Longrightarrow> killed p \<or> \<not> handleOpen p"
  by (auto simp: terminateChild_def kill_def setTimeout_def split: option.splits if_splits)

lemma quiet_gracefulShutdown: "quiet w \<Longrightarrow> quiet (gracefulShutdown c r w)"
proof (cases "shuttingDown (supervisorState w)")
  case True
  assume "quiet w"
  with True show ?thesis by (simp add: gracefulShutdown_def)
next
  case False
  let ?w3 = "(clearInterval (hangDetectionInterval (supervisorState w))
               (w\<lparr>supervisorState := (supervisorState w)\<lparr>shuttingDown := True, exitCode := Some c\<rparr>\<rparr>))
             \<lparr>cleanupTasks := (if httpServer (supervisorState w) then [HttpClose] else [])\<rparr>"
  have "childView (gracefulShutdown c r w) = childView (terminateChild ?w3)"
    using False by (simp add: gracefulShutdown_def Let_def clearInterval_def split: option.splits)
  then have "quiet (gracefulShutdown c r w) = quiet (terminateChild ?w3)" by (rule quiet_view)
  moreover have "quiet (terminateChild ?w3)"
    using terminateChild_child [of ?w3] by (auto simp: quiet_def)
  ultimately show ?thesis by simp
qed

lemma quiet_faults:
  "quiet w \<Longrightarrow> quiet (uncaughtException m w)"
  "quiet w \<Longrightarrow> quiet (unhandledRejection m w)"
  by (simp_all add: uncaughtException_def unhandledRejection_def quiet_gracefulShutdown)

lemma quiet_sigkillTimeout: "quiet w \<Longrightarrow> quiet (sigkillTimeout w)"
  by (simp add: sigkillTimeout_def quiet_kill split: option.splits)

lemma quiet_forceKillTimeout: "quiet w \<Longrightarrow> quiet (forceKillTimeout k w)"
  by (simp add: forceKillTimeout_def quiet_kill quiet_faults split: option.splits)

lemma quiet_killHangingProcess: "quiet w \<Longrightarrow> quiet (killHangingProcess w)"
  by (simp add: killHangingProcess_def quiet_kill split: option.splits)

lemma quiet_hangTick: "quiet w \<Longrightarrow> quiet (hangTick e w)"
  by (simp add: hangTick_def Let_def quiet_killHangingProcess split: option.splits)

lemma quiet_counts:
  "quiet (w\<lparr>supervisorState := (supervisorState w)\<lparr>restartCount := a, restartTimestamps := b\<rparr>\<rparr>)
     = quiet w"
  by (rule quiet_view) (simp add: childView_def)

lemma quiet_restartTimeout:
  assumes "quiet w"
  shows "quiet (restartTimeout e w)"
proof (cases "shuttingDown (supervisorState w)")
  case True
  then show ?thesis using assms by (simp add: restartTimeout_def)
next
  case False
  let ?w1 = "w\<lparr>supervisorState := (supervisorState w)
                 \<lparr>restartCount := restartCount (supervisorState w) + 1,
                  restartTimestamps := restartTimestamps (supervisorState w) @ [dateNow e]\<rparr>\<rparr>"
  have "restartTimeout e w = startHangDetection (spawnClaudeProcess e ?w1)"
    using False unfolding restartTimeout_def Let_def by (simp only: if_False)
  moreover have "quiet ?w1" using assms by (simp only: quiet_counts)
  ultimately show ?thesis by (simp add: quiet_spawnClaudeProcess)
qed

lemma quiet_handleClaudeFailure: "quiet w \<Longrightarrow> quiet (handleClaudeFailure e w)"
  by (simp add: handleClaudeFailure_def canAttemptRestart_def Let_def quiet_gracefulShutdown)

lemma quiet_onChildExit:
  assumes "quiet w"
  shows "quiet (onChildExit e code w)"
proof -
  let ?w1 = "w\<lparr>supervisorState := (supervisorState w)\<lparr>streamActive := False\<rparr>\<rparr>"
  have c: "quiet ?w1" using assms by simp
  have "onChildExit e code w =
          (if shuttingDown (supervisorState w) then ?w1
           else if code = Some 0 then gracefulShutdown 0 (js ''Claude completed successfully'') ?w1
           else handleClaudeFailure e ?w1)"
    by (simp add: onChildExit_def Let_def)
  then show ?thesis
    using c quiet_gracefulShutdown [OF c] quiet_handleClaudeFailure [OF c] by simp
qed

lemma quiet_childExit: "quiet w \<Longrightarrow> quiet (childExit e k code w)"
  by (simp add: childExit_def Let_def quiet_onChildExit quiet_closeHandle)

lemma quiet_onListening: "quiet w \<Longrightarrow> quiet (onListening e w)"
  by (simp add: onListening_def quiet_spawnClaudeProcess)

lemma quiet_fire: "quiet w \<Longrightarrow> quiet (fire e t w)"
  by (cases t)
     (simp_all add: fire_def quiet_restartTimeout quiet_sigkillTimeout quiet_forceKillTimeout)

lemma quiet_react: "quiet w \<Longrightarrow> quiet (react ev e w)"
  by (cases ev)
     (simp_all add: react_def quiet_fire quiet_childExit quiet_hangTick quiet_handleClaudeFailure
        quiet_onListening quiet_gracefulShutdown quiet_faults)

lemma quiet_step: "quiet w \<Longrightarrow> quiet (step ev e w)"
  by (simp add: step_def quiet_react)

lemma quiet_boot: "quiet (boot s a t)"
  by (simp add: quiet_def boot_def initializeSupervisor_def initialWorld_def initialState_def
        processExit_def)

lemma reachable_quiet: "reachable w \<Longrightarrow> quiet w"
  by (induction rule: reachable.induct) (simp_all add: quiet_boot quiet_step)

lemma quiet_sigkill_noop:
  "quiet w \<Longrightarrow> shuttingDown (supervisorState w) \<Longrightarrow> sigkillTimeout w = w"
  by (auto simp: quiet_def sigkillTimeout_def kill_def split: option.splits)

section \<open>The first request fixes the exit\<close>

lemma outcome_sd:
  "outcome v = outcome w \<Longrightarrow> shuttingDown (supervisorState v) = shuttingDown (supervisorState w)"
  by (simp add: outcome_def)

lemma start_failure:
  assumes "coherent w" "\<not> shuttingDown (supervisorState w)" "exited w = None"
    and "shuttingDown (supervisorState (handleClaudeFailure e w))"
  shows "\<exists>c r. agree c r (handleClaudeFailure e w)"
proof -
  have eq: "handleClaudeFailure e w =
          (if fst (canAttemptRestart e w) then scheduleRestart w
           else gracefulShutdown 1
                  (js ''Claude failed after '' @ decimal (restartCount (supervisorState w)) @
                   js '' restarts'') w)"
    using assms(2) by (simp add: handleClaudeFailure_def canAttemptRestart_def Let_def)
  show ?thesis
  proof (cases "fst (canAttemptRestart e w)")
    case True
    with eq assms(2,4) show ?thesis by (simp add: scheduleRestart_def setTimeout_def)
  next
    case False
    with eq agree_start [OF assms(1-3)] show ?thesis by auto
  qed
qed

lemma start_childExit:
  assumes "coherent w" "\<not> shuttingDown (supervisorState w)" "exited w = None"
    and "shuttingDown (supervisorState (childExit e k code w))"
  shows "\<exists>c r. agree c r (childExit e k code w)"
proof -
  let ?w0 = "closeHandle k w"
  let ?w1 = "?w0\<lparr>supervisorState := (supervisorState ?w0)\<lparr>streamActive := False\<rparr>\<rparr>"
  let ?x = "onChildExit e code ?w0"
  have o1: "outcome ?w1 = outcome w" by simp
  have c1: "coherent ?w1" using assms(1) by (simp add: coherent_streamActive)
  have s1: "\<not> shuttingDown (supervisorState ?w1)" using outcome_sd [OF o1] assms(2) by simp
  have x1: "exited ?w1 = None" using outcomeD(2) [OF o1] assms(3) by simp
  have s0: "\<not> shuttingDown (supervisorState ?w0)"
    using outcome_sd [OF outcome_frame(2), of k w] assms(2) by simp
  have body: "?x = (if code = Some 0
                    then gracefulShutdown 0 (js ''Claude completed successfully'') ?w1
                    else handleClaudeFailure e ?w1)"
    using s0 by (simp add: onChildExit_def Let_def)
  have "outcome (childExit e k code w) = outcome ?x" by (simp add: childExit_def Let_def)
  from outcome_sd [OF this] assms(4) have sx: "shuttingDown (supervisorState ?x)" by simp
  have "\<exists>c r. agree c r ?x"
  proof (cases "code = Some 0")
    case True
    with body agree_start [OF c1 s1 x1] show ?thesis by auto
  next
    case False
    with body sx have "shuttingDown (supervisorState (handleClaudeFailure e ?w1))" by simp
    from start_failure [OF c1 s1 x1 this] body False show ?thesis by simp
  qed
  then obtain c r where a: "agree c r ?x" by blast
  have "agree c r (childExit e k code w)"
    using a agree_resolve [OF agree_clearTimeout [OF a]] by (simp add: childExit_def Let_def)
  then show ?thesis by blast
qed

lemma start_react:
  assumes "coherent w" "\<not> shuttingDown (supervisorState w)" "exited w = None"
    and "shuttingDown (supervisorState (react ev e w))"
  shows "\<exists>c r. agree c r (react ev e w)"
proof -
  from assms have ts: "\<forall>t \<in> set (timeouts w). t = RestartTimeout \<or> t = SigkillTimeout"
    by (auto simp: coherent_def)
  note gs = agree_start [OF assms(1-3)]
  show ?thesis
  proof (cases ev)
    case ServerListening
    then show ?thesis using assms(2,4) outcome_sd [OF outcome_onListening, of e w]
      by (simp add: react_def)
  next
    case ServerError
    have "shuttingDown (supervisorState (onServerError w)) = shuttingDown (supervisorState w)"
      by (simp add: onServerError_def processExit_def)
    with ServerError show ?thesis using assms(2,4) by (simp add: react_def)
  next
    case ServerClosed
    then show ?thesis using assms(2,4) by (simp add: react_def resolve_def)
  next
    case (StdoutData x)
    then show ?thesis using assms(2,4) by (simp add: react_def onStdoutData_def)
  next
    case (StderrData x)
    then show ?thesis using assms(2,4) by (simp add: react_def onStderrData_def)
  next
    case (ChildExit k code)
    then show ?thesis using assms(4) start_childExit [OF assms(1-3), of e k code]
      by (simp add: react_def)
  next
    case (ChildError k)
    then show ?thesis using assms(4) start_failure [OF assms(1-3), of e]
      by (simp add: react_def)
  next
    case (HangTick h)
    then show ?thesis using assms(2,4) outcome_sd [OF outcome_hangTick, of e w]
      by (simp add: react_def split: if_splits)
  next
    case (TimeoutFires t)
    show ?thesis
    proof (cases "t \<in> set (timeouts w)")
      case True
      with ts have "t = RestartTimeout \<or> t = SigkillTimeout" by blast
      from outcome_sd [OF outcome_fire [OF this]] show ?thesis
        using TimeoutFires True assms(2,4) by (simp add: react_def)
    next
      case False
      then show ?thesis using TimeoutFires assms(2,4) by (simp add: react_def)
    qed
  next
    case SigtermReceived
    then show ?thesis using gs by (auto simp: react_def)
  next
    case SigintReceived
    then show ?thesis using gs by (auto simp: react_def)
  next
    case (UncaughtException m)
    then show ?thesis using gs by (auto simp: react_def uncaughtException_def)
  next
    case (UnhandledRejection m)
    then show ?thesis using gs by (auto simp: react_def unhandledRejection_def)
  qed
qed

lemma settle_shuttingDown:
  "shuttingDown (supervisorState (settle w)) = shuttingDown (supervisorState w)"
  by (simp add: settle_def finalExit_def processExit_def split: option.splits)

lemma agree_first:
  assumes "coherent w" "\<not> shuttingDown (supervisorState w)" "exited w = None"
    and "exitCode (supervisorState (step ev e w)) = Some c"
  shows "\<exists>r. agree c r (step ev e w)"
proof -
  have st: "step ev e w = settle (react ev e w)" using assms(3) by (simp add: step_def)
  have "coherent (step ev e w)" using assms(1) by (rule coherent_step)
  with assms(4) have "shuttingDown (supervisorState (step ev e w))"
    by (auto simp: coherent_def)
  then have "shuttingDown (supervisorState (react ev e w))"
    unfolding st by (simp add: settle_shuttingDown)
  from start_react [OF assms(1-3) this] obtain c' r where "agree c' r (react ev e w)" by blast
  then have a: "agree c' r (step ev e w)" unfolding st by (rule agree_settle)
  with assms(4) have "c' = c" by (simp add: agree_def)
  with a show ?thesis by blast
qed

section \<open>The scenarios, evaluated\<close>

lemmas model_defs =
  clearInterval_def setTimeout_def clearTimeout_def resolve_def processExit_def kill_def
  finalExit_def terminateChild_def gracefulShutdown_def settle_def shutdownTimeout_def
  uncaughtException_def unhandledRejection_def forceKillTimeout_def spawnClaudeProcess_def
  onStdoutData_def onStderrData_def startHangDetection_def sigkillTimeout_def
  killHangingProcess_def hangTick_def canAttemptRestart_def scheduleRestart_def
  restartTimeout_def handleClaudeFailure_def onChildExit_def onListening_def onServerError_def
  closeHandle_def childExit_def fire_def react_def step_def
  initialState_def initialWorld_def initializeSupervisor_def boot_def
  MAX_RESTARTS_def RESTART_WINDOW_MS_def STREAM_TIMEOUT_MS_def

lemma js_neq: "js ''s1'' \<noteq> js ''unknown''" "js ''s1'' \<noteq> []" "js ''hi'' \<noteq> []"
  by (simp_all add: js_def)

lemma started_eq:
  "started =
     \<lparr>supervisorState =
        \<lparr>claudeProcess = Some \<lparr>cid = 0, killed = False, handleOpen = True\<rparr>,
         httpServer = True, startTime = 0, lastOutputTs = 1000, lastOutputLine = [],
         streamActive = True, restartCount = 0, restartTimestamps = [],
         sessionId = js ''s1'', claudeCommand = js ''hi'', shuttingDown = False,
         exitCode = None, hangDetectionInterval = Some 0\<rparr>,
      intervals = [0], nextTimer = 1, nextCid = 1, timeouts = [], cleanupTasks = [],
      onSettled = None, signals = [], awaitingListen = False, exited = None,
      exitReason = None\<rparr>"
  by (simp add: started_def envAt_def model_defs js_neq)

lemma stopping_eq:
  "stopping =
     \<lparr>supervisorState =
        \<lparr>claudeProcess = Some \<lparr>cid = 0, killed = True, handleOpen = True\<rparr>,
         httpServer = True, startTime = 0, lastOutputTs = 1000, lastOutputLine = [],
         streamActive = True, restartCount = 0, restartTimestamps = [],
         sessionId = js ''s1'', claudeCommand = js ''hi'', shuttingDown = True,
         exitCode = Some 0, hangDetectionInterval = Some 0\<rparr>,
      intervals = [], nextTimer = 1, nextCid = 1,
      timeouts = [ForceKillTimeout 0, ShutdownTimeout 0 (js ''SIGTERM received'')],
      cleanupTasks = [HttpClose, ChildTerminate 0],
      onSettled = Some (0, js ''SIGTERM received''), signals = [(0, SIGTERM)],
      awaitingListen = False, exited = None, exitReason = None\<rparr>"
  by (simp add: stopping_def started_eq envAt_def model_defs)

lemma completed_eq:
  "completed =
     \<lparr>supervisorState =
        \<lparr>claudeProcess = Some \<lparr>cid = 0, killed = False, handleOpen = False\<rparr>,
         httpServer = True, startTime = 0, lastOutputTs = 1000, lastOutputLine = [],
         streamActive = False, restartCount = 0, restartTimestamps = [],
         sessionId = js ''s1'', claudeCommand = js ''hi'', shuttingDown = True,
         exitCode = Some 0, hangDetectionInterval = Some 0\<rparr>,
      intervals = [], nextTimer = 1, nextCid = 1,
      timeouts = [ForceKillTimeout 0, ShutdownTimeout 0 (js ''Claude completed successfully'')],
      cleanupTasks = [HttpClose, ChildTerminate 0],
      onSettled = Some (0, js ''Claude completed successfully''), signals = [],
      awaitingListen = False, exited = None, exitReason = None\<rparr>"
  by (simp add: completed_def started_eq envAt_def model_defs)

lemma restarted_eq:
  "restarted =
     \<lparr>supervisorState =
        \<lparr>claudeProcess = Some \<lparr>cid = 1, killed = False, handleOpen = True\<rparr>,
         httpServer = True, startTime = 0, lastOutputTs = 5000,
         lastOutputLine = sliceLast 100 (trim (js ''hello'')),
         streamActive = True, restartCount = 1, restartTimestamps = [5000],
         sessionId = js ''s1'', claudeCommand = js ''hi'', shuttingDown = False,
         exitCode = None, hangDetectionInterval = Some 1\<rparr>,
      intervals = [0, 1], nextTimer = 2, nextCid = 2, timeouts = [], cleanupTasks = [],
      onSettled = None, signals = [], awaitingListen = False, exited = None,
      exitReason = None\<rparr>"
  by (simp add: restarted_def started_eq envAt_def model_defs)

lemma trim_hello: "sliceLast 100 (trim (js ''hello'')) = js ''hello''"
  by (simp add: sliceLast_def trim_def js_def isWhiteSpace_def)

lemma reachable_started: "reachable started"
  unfolding started_def by (intro reachable.intros)

lemma booted_eq:
  "booted =
     \<lparr>supervisorState =
        \<lparr>claudeProcess = None, httpServer = True, startTime = 0, lastOutputTs = 0,
         lastOutputLine = [], streamActive = False, restartCount = 0, restartTimestamps = [],
         sessionId = js ''s1'', claudeCommand = js ''hi'', shuttingDown = False,
         exitCode = None, hangDetectionInterval = None\<rparr>,
      intervals = [], nextTimer = 0, nextCid = 0, timeouts = [], cleanupTasks = [],
      onSettled = None, signals = [], awaitingListen = True, exited = None,
      exitReason = None\<rparr>"
  by (simp add: booted_def model_defs js_neq)

lemma reachable_booted: "reachable booted"
  unfolding booted_def by (rule reachable_boot)

lemma reachable_stopping: "reachable stopping"
  unfolding stopping_def by (intro reachable_step reachable_started)

lemma outputs_snoc:
  "outputs (evs @ [(ch, e, output)]) w = onData ch e output (outputs evs w)"
  by (induction evs arbitrary: w) auto

section \<open>Restart policy\<close>

text \<open>
  C1. For every restart count, restart history and time, \<^verbatim>\<open>canAttemptRestart\<close> answers
  true exactly when the count is below \<open>MAX_RESTARTS\<close> and fewer than \<open>MAX_RESTARTS\<close>
  of the recorded timestamps lie less than \<open>RESTART_WINDOW_MS\<close> before now; the world
  after the call is the world before it.
\<close>

theorem canAttemptRestart_iff:
  "canAttemptRestart e w =
     (restartCount (supervisorState w) < MAX_RESTARTS \<and>
      length (filter (\<lambda>t. dateNow e - t < RESTART_WINDOW_MS)
                (restartTimestamps (supervisorState w))) < MAX_RESTARTS,
      w)"
  by (simp add: canAttemptRestart_def Let_def)

section \<open>Shutdown latch\<close>

text \<open>
  C2. In a world whose \<open>shuttingDown\<close> flag is set (so in every reachable such world),
  \<^verbatim>\<open>spawnClaudeProcess\<close> and the resumed callback of \<^verbatim>\<open>scheduleRestart\<close> change
  nothing, and a tick of the hang detector leaves the supervisor state, the signals sent,
  the children and the queued timers as they are: no child is spawned, the restart counter
  and log do not change, no kill cascade starts. The tick only cancels the stored interval
  timer.
\<close>

theorem shutdown_latches:
  assumes "shuttingDown (supervisorState w)"
  shows "spawnClaudeProcess e w = w \<and>
         restartTimeout e w = w \<and>
         supervisorState (hangTick e w) = supervisorState w \<and>
         signals (hangTick e w) = signals w \<and>
         nextCid (hangTick e w) = nextCid w \<and>
         timeouts (hangTick e w) = timeouts w \<and>
         set (intervals (hangTick e w)) \<subseteq> set (intervals w)"
  using assms
  by (auto simp: spawnClaudeProcess_def restartTimeout_def hangTick_def clearInterval_def
        split: option.splits)

text \<open>
  The latch at the running supervisor after SIGTERM.
\<close>

theorem shutdown_latches_witness:
  "shuttingDown (supervisorState stopping) \<and>
   spawnClaudeProcess (envAt 3000) stopping = stopping \<and>
   restartTimeout (envAt 3000) stopping = stopping \<and>
   supervisorState (hangTick (envAt 3000) stopping) = supervisorState stopping \<and>
   signals (hangTick (envAt 3000) stopping) = [(0, SIGTERM)]"
proof -
  have h: "shuttingDown (supervisorState stopping)"
    and s: "signals stopping = [(0, SIGTERM)]" by (simp_all add: stopping_eq)
  show ?thesis using h s shutdown_latches [OF h, of "envAt 3000"] by simp
qed




section \<open>Exit codes\<close>




section \<open>Suspended actions\<close>

text \<open>
  C5, as stated, fails: with \<open>shuttingDown\<close> set, the shutdown timeout still exits the
  process when it fires, and the force-kill timer of the shutdown still resolves its cleanup
  step.
\<close>

theorem suspended_actions_counterexample:
  "shuttingDown (supervisorState stopping) \<and> exited stopping = None \<and>
   exited (step (TimeoutFires (ShutdownTimeout 0 (js ''SIGTERM received''))) (envAt 12000) stopping)
     = Some 0 \<and>
   shuttingDown (supervisorState completed) \<and>
   cleanupTasks completed = [HttpClose, ChildTerminate 0] \<and>
   cleanupTasks (step (TimeoutFires (ForceKillTimeout 0)) (envAt 7000) completed) = [HttpClose]"
  by (simp add: stopping_eq completed_eq step_def react_def fire_def shutdownTimeout_def
        finalExit_def processExit_def settle_def forceKillTimeout_def resolve_def kill_def)

text \<open>
  C5, amended. Resumed with \<open>shuttingDown\<close> set, the restart callback does nothing and
  the hang-detector tick only cancels the stored interval timer, both by checking the flag;
  the SIGKILL timer of the kill cascade does nothing either in a reachable world, since the
  shutdown has marked every child that still exists as killed. The two timers that the
  shutdown request itself arms do act: its force-kill timer sends SIGKILL exactly when the
  stored child is not marked killed and still exists, and resolves its cleanup step; its
  overall timeout exits the process with the code and reason of the request.
\<close>

theorem suspended_actions:
  "(shuttingDown (supervisorState w) \<longrightarrow>
      restartTimeout e w = w \<and>
      hangTick e w = clearInterval (hangDetectionInterval (supervisorState w)) w \<and>
      supervisorState (hangTick e w) = supervisorState w \<and>
      signals (hangTick e w) = signals w \<and>
      timeouts (hangTick e w) = timeouts w) \<and>
   (reachable w \<and> shuttingDown (supervisorState w) \<longrightarrow> sigkillTimeout w = w) \<and>
   (\<forall>p. claudeProcess (supervisorState w) = Some p \<longrightarrow>
      signals (forceKillTimeout k w) =
        (if \<not> killed p \<and> handleOpen p then signals w @ [(cid p, SIGKILL)] else signals w) \<and>
      claudeProcess (supervisorState (forceKillTimeout k w)) =
        (if \<not> killed p \<and> handleOpen p then Some (p\<lparr>killed := True\<rparr>) else Some p) \<and>
      cleanupTasks (forceKillTimeout k w) = removeAll (ChildTerminate k) (cleanupTasks w)) \<and>
   exited (shutdownTimeout c r w) = Some c \<and>
   exitReason (shutdownTimeout c r w) = Some r"
proof -
  have a: "shuttingDown (supervisorState w) \<longrightarrow>
      restartTimeout e w = w \<and>
      hangTick e w = clearInterval (hangDetectionInterval (supervisorState w)) w \<and>
      supervisorState (hangTick e w) = supervisorState w \<and>
      signals (hangTick e w) = signals w \<and>
      timeouts (hangTick e w) = timeouts w"
    by (auto simp: restartTimeout_def hangTick_def clearInterval_def split: option.splits)
  have b: "reachable w \<and> shuttingDown (supervisorState w) \<longrightarrow> sigkillTimeout w = w"
    using reachable_quiet [of w] quiet_sigkill_noop [of w] by blast
  have c: "\<forall>p. claudeProcess (supervisorState w) = Some p \<longrightarrow>
      signals (forceKillTimeout k w) =
        (if \<not> killed p \<and> handleOpen p then signals w @ [(cid p, SIGKILL)] else signals w) \<and>
      claudeProcess (supervisorState (forceKillTimeout k w)) =
        (if \<not> killed p \<and> handleOpen p then Some (p\<lparr>killed := True\<rparr>) else Some p) \<and>
      cleanupTasks (forceKillTimeout k w) = removeAll (ChildTerminate k) (cleanupTasks w)"
    by (simp add: forceKillTimeout_def resolve_def kill_def)
  have d: "exited (shutdownTimeout c r w) = Some c \<and> exitReason (shutdownTimeout c r w) = Some r"
    by (simp add: shutdownTimeout_def finalExit_def processExit_def)
  show ?thesis using a b c d by blast
qed

text \<open>
  The timers at the running supervisor after SIGTERM.
\<close>

theorem suspended_actions_witness:
  "reachable stopping \<and> shuttingDown (supervisorState stopping) \<and>
   restartTimeout (envAt 3000) stopping = stopping \<and>
   sigkillTimeout stopping = stopping \<and>
   claudeProcess (supervisorState stopping) = Some \<lparr>cid = 0, killed = True, handleOpen = True\<rparr> \<and>
   signals (forceKillTimeout 0 stopping) = signals stopping \<and>
   exited (shutdownTimeout 0 (js ''SIGTERM received'') stopping) = Some 0"
proof -
  have h: "shuttingDown (supervisorState stopping)"
    and p: "claudeProcess (supervisorState stopping) = Some \<lparr>cid = 0, killed = True, handleOpen = True\<rparr>"
    by (simp_all add: stopping_eq)
  show ?thesis
    using reachable_stopping h p
      suspended_actions [of stopping "envAt 3000" 0 0 "js ''SIGTERM received''"]
    by simp
qed

section \<open>Activity tracker\<close>

text \<open>
  C6, as stated, fails: the stored snippet is cut from the trimmed content, so for the
  content \<^verbatim>\<open>"ok "\<close> it is \<^verbatim>\<open>"ok"\<close> and not the trailing characters of the content.
\<close>

theorem output_tracking_counterexample:
  "lastOutputLine (supervisorState (outputs [(Stdout, envAt 2000, js ''ok '')] started))
     \<noteq> sliceLast 100 (js ''ok '')"
  by (simp add: onData_def onStdoutData_def sliceLast_def trim_def js_def isWhiteSpace_def)

text \<open>
  C6, amended. After a non-empty sequence of output events, \<open>lastOutputTs\<close> is the time
  of the last event, \<open>lastOutputLine\<close> is the last 100 code units (or fewer) of the last
  event's content with leading and trailing white space removed, and \<open>streamActive\<close> is
  true; the two channels have the same handler.
\<close>

theorem output_tracking:
  assumes "evs \<noteq> []"
  shows "(case last evs of (ch, e, output) \<Rightarrow>
            lastOutputTs (supervisorState (outputs evs w)) = dateNow e \<and>
            lastOutputLine (supervisorState (outputs evs w)) = sliceLast 100 (trim output) \<and>
            length (lastOutputLine (supervisorState (outputs evs w))) \<le> 100 \<and>
            streamActive (supervisorState (outputs evs w))) \<and>
         onStdoutData e' output' w = onStderrData e' output' w"
proof -
  from assms obtain evs' ch e out where evs: "evs = evs' @ [(ch, e, out)]"
    by (metis rev_exhaust prod_cases3)
  show ?thesis
    unfolding evs outputs_snoc
    by (cases ch) (simp_all add: onData_def onStdoutData_def onStderrData_def sliceLast_def)
qed

text \<open>
  A line on standard output followed by a padded line on error output.
\<close>

theorem output_tracking_witness:
  "[(Stdout, envAt 2000, js ''a''), (Stderr, envAt 2500, js '' warn '')] \<noteq> [] \<and>
   lastOutputTs (supervisorState
     (outputs [(Stdout, envAt 2000, js ''a''), (Stderr, envAt 2500, js '' warn '')] started)) = 2500 \<and>
   lastOutputLine (supervisorState
     (outputs [(Stdout, envAt 2000, js ''a''), (Stderr, envAt 2500, js '' warn '')] started)) = js ''warn''"
proof -
  have h: "[(Stdout, envAt 2000, js ''a''), (Stderr, envAt 2500, js '' warn '')] \<noteq> []" by simp
  have t: "sliceLast 100 (trim (js '' warn '')) = js ''warn''"
    by (simp add: sliceLast_def trim_def js_def isWhiteSpace_def)
  show ?thesis
    using output_tracking [OF h, of started] t by (simp add: envAt_def)
qed

text \<open>
  C7. The code does not do what the claim says: after the child printed \<^verbatim>\<open>hello\<close>,
  failed and was restarted, the new child runs with \<open>lastOutputTs\<close> and
  \<open>streamActive\<close> reset, but \<open>lastOutputLine\<close> is still \<^verbatim>\<open>hello\<close>;
  \<^verbatim>\<open>spawnClaudeProcess\<close> never changes \<open>lastOutputLine\<close>.
\<close>

theorem spawn_keeps_snippet:
  "lastOutputLine (supervisorState restarted) = js ''hello'' \<and>
   lastOutputTs (supervisorState restarted) = 5000 \<and>
   streamActive (supervisorState restarted) \<and>
   claudeProcess (supervisorState restarted) = Some \<lparr>cid = 1, killed = False, handleOpen = True\<rparr> \<and>
   lastOutputLine (supervisorState (spawnClaudeProcess e w)) = lastOutputLine (supervisorState w)"
  by (simp add: restarted_eq trim_hello spawnClaudeProcess_def)

section \<open>Restart counter\<close>

text \<open>
  C8. In every reachable world \<open>restartCount\<close> is the length of
  \<open>restartTimestamps\<close>, and every reaction, in particular the resumed callback of
  \<^verbatim>\<open>scheduleRestart\<close>, keeps it so.
\<close>

theorem restartCount_is_log_length:
  "(reachable w \<longrightarrow> restartCount (supervisorState w) = length (restartTimestamps (supervisorState w))) \<and>
   (restartCount (supervisorState w) = length (restartTimestamps (supervisorState w)) \<longrightarrow>
      restartCount (supervisorState (step ev e w))
        = length (restartTimestamps (supervisorState (step ev e w))) \<and>
      restartCount (supervisorState (restartTimeout e w))
        = length (restartTimestamps (supervisorState (restartTimeout e w))))"
proof -
  have "reachable w \<Longrightarrow> counted w"
    by (induction rule: reachable.induct) (simp_all add: counted_boot counted_step)
  then show ?thesis
    using counted_step [of w ev e] counted_restartTimeout [of w e]
    by (auto simp: counted_def counts_def)
qed

text \<open>
  The supervisor after one restart.
\<close>

theorem restartCount_is_log_length_witness:
  "reachable restarted \<and>
   restartCount (supervisorState restarted) = 1 \<and>
   length (restartTimestamps (supervisorState restarted)) = 1"
proof -
  have "reachable started" unfolding started_def by (intro reachable.intros)
  then have r: "reachable restarted" unfolding restarted_def by (auto intro: reachable.intros)
  show ?thesis
    using r restartCount_is_log_length [of restarted] by (simp add: restarted_eq)
qed

section \<open>Hang detector timers\<close>

text \<open>
  C9. The code does not do what the claim says: after a child exit with code 1 (no hang)
  and the restart, the reachable world has two active interval timers, the first one no longer
  referred to by \<open>hangDetectionInterval\<close>, and no signal was ever sent.
\<close>

theorem two_hang_detectors:
  "reachable restarted \<and> \<not> shuttingDown (supervisorState restarted) \<and> exited restarted = None \<and>
   intervals restarted = [0, 1] \<and> hangDetectionInterval (supervisorState restarted) = Some 1 \<and>
   signals restarted = []"
proof -
  have "reachable started" unfolding started_def by (intro reachable.intros)
  then have "reachable restarted" unfolding restarted_def by (auto intro: reachable.intros)
  then show ?thesis by (simp add: restarted_eq)
qed

section \<open>Startup validation\<close>

text \<open>
  C10. Startup exits with code 1, before any child is spawned and before the server is
  created, when \<^verbatim>\<open>SESSION_ID\<close> is absent, when it is the empty string, and also when it
  is the string \<^verbatim>\<open>unknown\<close>, the value that stands for an absent identifier.
\<close>

theorem validation_rejects_unknown:
  "exited (boot None argv2 t) = Some 1 \<and>
   exited (boot (Some []) argv2 t) = Some 1 \<and>
   exited (boot (Some (js ''unknown'')) argv2 t) = Some 1 \<and>
   claudeProcess (supervisorState (boot None argv2 t)) = None \<and>
   claudeProcess (supervisorState (boot (Some []) argv2 t)) = None \<and>
   claudeProcess (supervisorState (boot (Some (js ''unknown'')) argv2 t)) = None \<and>
   nextCid (boot None argv2 t) = 0 \<and>
   nextCid (boot (Some []) argv2 t) = 0 \<and>
   nextCid (boot (Some (js ''unknown'')) argv2 t) = 0"
  by (simp add: boot_def initializeSupervisor_def initialWorld_def initialState_def processExit_def)

end
